theory Spec2Isabelle
  imports Main "HOL-Library.Word"
begin

section \<open>Collaborator types\<close>

text \<open>
  Modelled from the spec: \<^verbatim>\<open>storepb.PartialResponseStrategy\<close> (package
  \<^verbatim>\<open>pkg/store/storepb\<close>, not among the sources): the consistency policy
  enumeration. The source names the member \<^verbatim>\<open>PartialResponseStrategy_ABORT\<close>, its test
  names \<^verbatim>\<open>PartialResponseStrategy_WARN\<close>. \<open>WARN\<close> has wire value 0 and is the
  zero value of the type, \<open>ABORT\<close> has wire value 1.
\<close>

datatype PartialResponseStrategy = WARN | ABORT

fun String :: "PartialResponseStrategy \<Rightarrow> string" where
  "String WARN = ''WARN''"
| "String ABORT = ''ABORT''"

text \<open>
  Modelled from the spec: the generated table \<^verbatim>\<open>storepb.PartialResponseStrategy_value\<close>
  (member name to member) and the sorted name list
  \<^verbatim>\<open>storepb.PartialResponseStrategyValues\<close>.
\<close>

definition PartialResponseStrategy_table :: "(string \<times> PartialResponseStrategy) list" where
  "PartialResponseStrategy_table = [(''WARN'', WARN), (''ABORT'', ABORT)]"

definition PartialResponseStrategy_value :: "string \<rightharpoonup> PartialResponseStrategy" where
  "PartialResponseStrategy_value = map_of PartialResponseStrategy_table"

definition PartialResponseStrategyValues :: "string list" where
  "PartialResponseStrategyValues = [''ABORT'', ''WARN'']"

text \<open>
  Go does not fix the order in which \<^verbatim>\<open>range\<close> visits the keys of a map. Every
  loop over a map keyed by policy takes the order of that run as an input.
\<close>

datatype iter_order = WarnFirst | AbortFirst

fun keys_of :: "iter_order \<Rightarrow> PartialResponseStrategy list" where
  "keys_of WarnFirst = [WARN, ABORT]"
| "keys_of AbortFirst = [ABORT, WARN]"

definition range_keys :: "iter_order \<Rightarrow> (PartialResponseStrategy \<rightharpoonup> 'a) \<Rightarrow> PartialResponseStrategy list" where
  "range_keys ord m = filter (\<lambda>s. m s \<noteq> None) (keys_of ord)"

text \<open>
  \<^verbatim>\<open>time.Duration\<close> counts nanoseconds, \<^verbatim>\<open>time.Time\<close> is kept as a number,
  a \<^verbatim>\<open>float64\<close> is the 64 bits that encode it (only the library functions below
  look into them), a label set is a list of pairs, a \<^verbatim>\<open>[32]byte\<close> digest is a
  list of 32 bytes.
\<close>

type_synonym Duration = int
type_synonym Time = int
type_synonym float64 = "64 word"
type_synonym Labels = "(string \<times> string) list"
type_synonym path = string

typedef digest = "{bs :: 8 word list. length bs = 32}"
  by (rule exI [of _ "replicate 32 0"]) simp

text \<open>
  The library functions the source calls and that are not part of the repository:
  \<^verbatim>\<open>Duration.Seconds\<close>, \<^verbatim>\<open>strconv.FormatFloat(v, 'e', -1, 64)\<close> and
  \<^verbatim>\<open>sha256.Sum256\<close>. They are parameters of the model.
\<close>

record stdlib =
  Seconds :: "Duration \<Rightarrow> float64"
  FormatFloat_e :: "float64 \<Rightarrow> string"
  Sum256 :: "string \<Rightarrow> digest"

subsection \<open>The evaluation engine's live objects (\<^verbatim>\<open>prometheus/rules\<close>)\<close>

datatype AlertState = StateInactive | StatePending | StateFiring

record rules_Alert =
  al_State :: AlertState
  al_Labels :: Labels
  al_Annotations :: Labels
  al_Value :: float64
  al_ActiveAt :: Time

record rules_AlertingRule =
  ar_Name :: string
  ar_Query :: string
  ar_Duration :: Duration
  ar_Labels :: Labels
  ar_Annotations :: Labels
  ar_State :: AlertState
  ar_ActiveAlerts :: "rules_Alert list"
  ar_Health :: string
  ar_LastError :: "string option"
  ar_EvaluationDuration :: Duration
  ar_EvaluationTimestamp :: Time

record rules_RecordingRule =
  rr_Name :: string
  rr_Query :: string
  rr_Labels :: Labels
  rr_Health :: string
  rr_LastError :: "string option"
  rr_EvaluationDuration :: Duration
  rr_EvaluationTimestamp :: Time

text \<open>
  \<^verbatim>\<open>rules.Rule\<close> is an interface. The engine implements it twice; the third
  constructor stands for any other implementation, with its name and its Go type.
\<close>

datatype rules_Rule =
  AlertingRule rules_AlertingRule
| RecordingRule rules_RecordingRule
| OtherRule string string

record rules_Group =
  grp_Name :: string
  grp_File :: path
  grp_Interval :: Duration
  grp_Rules :: "rules_Rule list"

text \<open>The engine \<^verbatim>\<open>rules.Manager\<close>: the groups it currently evaluates.\<close>

record rules_Manager =
  mgr_RuleGroups :: "rules_Group list"

subsection \<open>The wire records (\<^verbatim>\<open>rulespb\<close>)\<close>

text \<open>
  Modelled from the spec: the messages of package \<^verbatim>\<open>pkg/rules/rulespb\<close> (not among
  the sources), with the fields that \<^verbatim>\<open>ToProto\<close> and
  \<^verbatim>\<open>ActiveAlertsToProto\<close> assign; a rule is an alert record or a recording
  record; the request type has the three members the source compares with.
\<close>

record AlertInstance =
  ai_PartialResponseStrategy :: PartialResponseStrategy
  ai_Labels :: Labels
  ai_Annotations :: Labels
  ai_State :: AlertState
  ai_ActiveAt :: Time
  ai_Value :: string

record Alert =
  a_State :: AlertState
  a_Name :: string
  a_Query :: string
  a_DurationSeconds :: float64
  a_Labels :: Labels
  a_Annotations :: Labels
  a_Alerts :: "AlertInstance list"
  a_Health :: string
  a_LastError :: string
  a_EvaluationDurationSeconds :: float64
  a_LastEvaluation :: Time

record Recording =
  r_Name :: string
  r_Query :: string
  r_Labels :: Labels
  r_Health :: string
  r_LastError :: string
  r_EvaluationDurationSeconds :: float64
  r_LastEvaluation :: Time

datatype Rule = Rule_Alert Alert | Rule_Recording Recording

fun GetAlert :: "Rule \<Rightarrow> Alert option" where
  "GetAlert (Rule_Alert a) = Some a"
| "GetAlert (Rule_Recording r) = None"

fun GetRecording :: "Rule \<Rightarrow> Recording option" where
  "GetRecording (Rule_Recording r) = Some r"
| "GetRecording (Rule_Alert a) = None"

record RuleGroup =
  Name :: string
  File :: string
  Rules :: "Rule list"
  Interval :: float64
  Strategy :: PartialResponseStrategy

text \<open>The Go literal \<^verbatim>\<open>&rulespb.RuleGroup{}\<close>: every field has its zero value.\<close>

definition RuleGroup_zero :: RuleGroup where
  "RuleGroup_zero = \<lparr>Name = [], File = [], Rules = [], Interval = 0, Strategy = WARN\<rparr>"

datatype RulesRequest_Type = RulesRequest_ALL | RulesRequest_ALERTING | RulesRequest_RECORDING

section \<open>The manager\<close>

record Group =
  Group_embedded :: rules_Group
  originalFile :: string
  Group_Strategy :: PartialResponseStrategy

record Manager =
  workDir :: path
  mgrs :: "PartialResponseStrategy \<rightharpoonup> rules_Manager"
  ruleFiles :: "path \<rightharpoonup> path"

datatype panic = UnsupportedType string string

subsection \<open>\<^verbatim>\<open>AlertingRule.ActiveAlertsToProto\<close>\<close>

definition ActiveAlertsToProto ::
  "stdlib \<Rightarrow> PartialResponseStrategy \<Rightarrow> rules_AlertingRule \<Rightarrow> AlertInstance list" where
  "ActiveAlertsToProto L s a =
     map (\<lambda>ruleAlert.
        \<lparr>ai_PartialResponseStrategy = s,
         ai_Labels = al_Labels ruleAlert,
         ai_Annotations = al_Annotations ruleAlert,
         ai_State = al_State ruleAlert,
         ai_ActiveAt = al_ActiveAt ruleAlert,
         ai_Value = FormatFloat_e L (al_Value ruleAlert)\<rparr>) (ar_ActiveAlerts a)"

subsection \<open>\<^verbatim>\<open>Group.ToProto\<close>\<close>

definition lastError_text :: "string option \<Rightarrow> string" where
  "lastError_text e = (case e of None \<Rightarrow> [] | Some msg \<Rightarrow> msg)"

text \<open>The type switch in the loop of \<^verbatim>\<open>ToProto\<close>; its default branch panics.\<close>

fun rule_ToProto :: "stdlib \<Rightarrow> PartialResponseStrategy \<Rightarrow> rules_Rule \<Rightarrow> panic + Rule" where
  "rule_ToProto L s (AlertingRule rule) = Inr (Rule_Alert
     \<lparr>a_State = ar_State rule,
      a_Name = ar_Name rule,
      a_Query = ar_Query rule,
      a_DurationSeconds = Seconds L (ar_Duration rule),
      a_Labels = ar_Labels rule,
      a_Annotations = ar_Annotations rule,
      a_Alerts = ActiveAlertsToProto L s rule,
      a_Health = ar_Health rule,
      a_LastError = lastError_text (ar_LastError rule),
      a_EvaluationDurationSeconds = Seconds L (ar_EvaluationDuration rule),
      a_LastEvaluation = ar_EvaluationTimestamp rule\<rparr>)"
| "rule_ToProto L s (RecordingRule rule) = Inr (Rule_Recording
     \<lparr>r_Name = rr_Name rule,
      r_Query = rr_Query rule,
      r_Labels = rr_Labels rule,
      r_Health = rr_Health rule,
      r_LastError = lastError_text (rr_LastError rule),
      r_EvaluationDurationSeconds = Seconds L (rr_EvaluationDuration rule),
      r_LastEvaluation = rr_EvaluationTimestamp rule\<rparr>)"
| "rule_ToProto L s (OtherRule n t) = Inl (UnsupportedType n t)"

text \<open>
  The loop of \<^verbatim>\<open>ToProto\<close> over \<^verbatim>\<open>g.Rules()\<close>: \<open>ret\<close> is the list appended
  to so far.
\<close>

fun ToProto_rules ::
  "stdlib \<Rightarrow> PartialResponseStrategy \<Rightarrow> rules_Rule list \<Rightarrow> Rule list \<Rightarrow> panic + Rule list" where
  "ToProto_rules L s [] ret = Inr ret"
| "ToProto_rules L s (r # rs) ret =
     (case rule_ToProto L s r of
        Inl p \<Rightarrow> Inl p
      | Inr rule \<Rightarrow> ToProto_rules L s rs (ret @ [rule]))"

definition ToProto :: "stdlib \<Rightarrow> Group \<Rightarrow> panic + RuleGroup" where
  "ToProto L g =
     (case ToProto_rules L (Group_Strategy g) (grp_Rules (Group_embedded g)) [] of
        Inl p \<Rightarrow> Inl p
      | Inr rs \<Rightarrow> Inr
          \<lparr>Name = grp_Name (Group_embedded g),
           File = originalFile g,
           Rules = rs,
           Interval = Seconds L (grp_Interval (Group_embedded g)),
           Strategy = Group_Strategy g\<rparr>)"

subsection \<open>\<^verbatim>\<open>Manager.RuleGroups\<close>\<close>

text \<open>A Go map read of a missing key gives the zero value, here the empty string.\<close>

definition lookup_file :: "(path \<rightharpoonup> path) \<Rightarrow> path \<Rightarrow> string" where
  "lookup_file rf k = (case rf k of None \<Rightarrow> [] | Some fn \<Rightarrow> fn)"

definition RuleGroups :: "iter_order \<Rightarrow> Manager \<Rightarrow> Group list" where
  "RuleGroups ord m =
     concat (map (\<lambda>s. case mgrs m s of
                None \<Rightarrow> []
              | Some r \<Rightarrow> map (\<lambda>group.
                  \<lparr>Group_embedded = group,
                   originalFile = lookup_file (ruleFiles m) (grp_File group),
                   Group_Strategy = s\<rparr>) (mgr_RuleGroups r))
            (range_keys ord (mgrs m)))"

subsection \<open>\<^verbatim>\<open>Manager.Rules\<close>\<close>

text \<open>The inner loop over \<^verbatim>\<open>pGroup.Rules\<close>; \<open>filtered\<close> is the list built so far.\<close>

fun filter_rules :: "RulesRequest_Type \<Rightarrow> Rule list \<Rightarrow> Rule list \<Rightarrow> Rule list" where
  "filter_rules t [] filtered = filtered"
| "filter_rules t (rule # rs) filtered =
     (if GetAlert rule \<noteq> None \<and> t = RulesRequest_ALERTING then filter_rules t rs (filtered @ [rule])
      else if GetRecording rule \<noteq> None \<and> t = RulesRequest_RECORDING then filter_rules t rs (filtered @ [rule])
      else filter_rules t rs filtered)"

text \<open>The first loop of \<^verbatim>\<open>Rules\<close>, over the groups; \<open>pgs\<close> is the list built so far.\<close>

fun Rules_groups ::
  "stdlib \<Rightarrow> RulesRequest_Type \<Rightarrow> Group list \<Rightarrow> RuleGroup list \<Rightarrow> panic + RuleGroup list" where
  "Rules_groups L t [] pgs = Inr pgs"
| "Rules_groups L t (g # gs) pgs =
     (case ToProto L g of
        Inl p \<Rightarrow> Inl p
      | Inr pGroup \<Rightarrow>
          if t = RulesRequest_ALL then
            (case ToProto L g of
               Inl p \<Rightarrow> Inl p
             | Inr again \<Rightarrow> Rules_groups L t gs (pgs @ [again]))
          else Rules_groups L t gs
                 (pgs @ [RuleGroup_zero\<lparr>Rules := filter_rules t (Rules pGroup) []\<rparr>]))"

text \<open>
  The second loop sends the groups one by one; the stream answers each \<^verbatim>\<open>Send\<close>
  with an error or with nothing, as a function of the call's position and its message.
  The result is the list of messages sent before the first failure, and that failure.
\<close>

fun send_all ::
  "(nat \<Rightarrow> RuleGroup \<Rightarrow> string option) \<Rightarrow> nat \<Rightarrow> RuleGroup list \<Rightarrow> RuleGroup list \<times> string option" where
  "send_all Send i [] = ([], None)"
| "send_all Send i (pg # pgs) =
     (case Send i pg of
        Some err \<Rightarrow> ([], Some err)
      | None \<Rightarrow> (case send_all Send (Suc i) pgs of (sent, e) \<Rightarrow> (pg # sent, e)))"

definition Rules_pgs :: "stdlib \<Rightarrow> iter_order \<Rightarrow> Manager \<Rightarrow> RulesRequest_Type \<Rightarrow> panic + RuleGroup list" where
  "Rules_pgs L ord m t = Rules_groups L t (RuleGroups ord m) []"

definition Rules_rpc ::
  "stdlib \<Rightarrow> iter_order \<Rightarrow> (nat \<Rightarrow> RuleGroup \<Rightarrow> string option) \<Rightarrow> Manager \<Rightarrow> RulesRequest_Type
     \<Rightarrow> panic + (RuleGroup list \<times> string option)" where
  "Rules_rpc L ord Send m t =
     (case Rules_pgs L ord m t of
        Inl p \<Rightarrow> Inl p
      | Inr pgs \<Rightarrow> Inr (send_all Send 0 pgs))"

section \<open>Errors and strings\<close>

text \<open>
  An error is kept as its message. \<^verbatim>\<open>errors.Wrap(err, msg)\<close> and
  \<^verbatim>\<open>errors.Wrapf\<close> give the message \<^verbatim>\<open>msg + ": " + err.Error()\<close>.
  \<^verbatim>\<open>Update\<close> returns either one such error or a \<^verbatim>\<open>MultiError\<close>, the list
  of the errors collected; \<^verbatim>\<open>MultiError.Err\<close> is \<^verbatim>\<open>nil\<close> for the empty list.
\<close>

definition Wrap :: "string \<Rightarrow> string \<Rightarrow> string" where
  "Wrap err msg = msg @ '': '' @ err"

datatype reload_error = Failure string | MultiError "string list"

definition Err :: "string list \<Rightarrow> reload_error option" where
  "Err errs = (if errs = [] then None else Some (MultiError errs))"

text \<open>
  \<^verbatim>\<open>strings.ToUpper\<close> on the bytes of a string: an ASCII lower-case letter becomes
  its upper-case letter, every other byte is kept. (No rune outside ASCII has an upper
  case among the letters of the member names.)
\<close>

definition ToUpper_char :: "char \<Rightarrow> char" where
  "ToUpper_char c =
     (case map_of (zip ''abcdefghijklmnopqrstuvwxyz'' ''ABCDEFGHIJKLMNOPQRSTUVWXYZ'') c of
        None \<Rightarrow> c
      | Some u \<Rightarrow> u)"

definition ToUpper :: "string \<Rightarrow> string" where
  "ToUpper s = map ToUpper_char s"

fun strings_Join :: "string list \<Rightarrow> string \<Rightarrow> string" where
  "strings_Join [] sep = []"
| "strings_Join [x] sep = x"
| "strings_Join (x # y # ys) sep = x @ sep @ strings_Join (y # ys) sep"

section \<open>Parsing a group document\<close>

record rulefmt_Rule =
  fmt_Record :: string
  fmt_Alert :: string
  fmt_Expr :: string
  fmt_For :: Duration
  fmt_Labels :: Labels
  fmt_Annotations :: Labels

record rulefmt_RuleGroup =
  fmt_Name :: string
  fmt_Interval :: Duration
  fmt_Rules :: "rulefmt_Rule list"

record configRuleGroup =
  crg_RuleGroup :: rulefmt_RuleGroup
  crg_Strategy :: "PartialResponseStrategy option"

text \<open>
  The callback \<^verbatim>\<open>unmarshal\<close> that the YAML decoder hands to
  \<^verbatim>\<open>UnmarshalYAML\<close> decodes one group document into the value it is given. It is
  called twice: into the struct holding the \<^verbatim>\<open>partial_response_strategy\<close> string
  (the empty string when the key is absent) and into a \<^verbatim>\<open>rulefmt.RuleGroup\<close>.
\<close>

record unmarshal_fn =
  into_rs :: "string + string"
  into_rg :: "string + rulefmt_RuleGroup"

definition errMsg :: string where
  "errMsg = ''failed to unmarshal 'partial_response_strategy'. Possible values are ''
              @ strings_Join PartialResponseStrategyValues '',''"

definition UnmarshalYAML :: "unmarshal_fn \<Rightarrow> string + configRuleGroup" where
  "UnmarshalYAML unmarshal =
     (case into_rs unmarshal of
        Inl err \<Rightarrow> Inl (Wrap err errMsg)
      | Inr rs \<Rightarrow>
         (case into_rg unmarshal of
            Inl err \<Rightarrow> Inl (Wrap err ''failed to unmarshal rulefmt.configRuleGroup'')
          | Inr rg \<Rightarrow>
             (case PartialResponseStrategy_value (ToUpper rs) of
                None \<Rightarrow>
                  if rs \<noteq> [] then Inl (errMsg @ ''. Got: '' @ rs)
                  else Inr \<lparr>crg_RuleGroup = rg,
                            crg_Strategy = Some (case PartialResponseStrategy_value (String ABORT) of
                                                   None \<Rightarrow> WARN | Some p \<Rightarrow> p)\<rparr>
              | Some p \<Rightarrow> Inr \<lparr>crg_RuleGroup = rg, crg_Strategy = Some p\<rparr>)))"

text \<open>
  Modelled from the spec: \<^verbatim>\<open>yaml.Unmarshal\<close> into \<^verbatim>\<open>configRuleGroups\<close> (the
  YAML library, \<^verbatim>\<open>gopkg.in/yaml.v2\<close>, is not part of the repository). A file
  parses into an ordered list of items under \<^verbatim>\<open>groups\<close> or is malformed. An item
  is a group document, which the decoder hands to \<^verbatim>\<open>UnmarshalYAML\<close>, or it is
  null (\<^verbatim>\<open>groups: [null]\<close>): the decoder then leaves the
  \<^verbatim>\<open>configRuleGroup\<close> at its zero value, with a \<^verbatim>\<open>nil\<close> policy pointer, and
  does not call \<^verbatim>\<open>UnmarshalYAML\<close>. The items are decoded in order, and the first
  error ends the parse.
\<close>

definition configRuleGroup_zero :: configRuleGroup where
  "configRuleGroup_zero =
     \<lparr>crg_RuleGroup = \<lparr>fmt_Name = [], fmt_Interval = 0, fmt_Rules = []\<rparr>, crg_Strategy = None\<rparr>"

fun unmarshal_groups :: "unmarshal_fn option list \<Rightarrow> string + configRuleGroup list" where
  "unmarshal_groups [] = Inr []"
| "unmarshal_groups (None # us) =
     (case unmarshal_groups us of
        Inl err \<Rightarrow> Inl err
      | Inr gs \<Rightarrow> Inr (configRuleGroup_zero # gs))"
| "unmarshal_groups (Some u # us) =
     (case UnmarshalYAML u of
        Inl err \<Rightarrow> Inl err
      | Inr g \<Rightarrow> (case unmarshal_groups us of Inl err \<Rightarrow> Inl err | Inr gs \<Rightarrow> Inr (g # gs)))"

section \<open>File names\<close>

text \<open>
  \<^verbatim>\<open>filepath.Base\<close>, \<^verbatim>\<open>filepath.Clean\<close> and \<^verbatim>\<open>filepath.Join\<close> (of two
  elements) on a system whose separator is the slash. \<^verbatim>\<open>Clean\<close> works on the
  elements between the separators: \<open>out\<close> holds the elements kept so far.
\<close>

definition Base :: "path \<Rightarrow> path" where
  "Base p =
     (if p = [] then ''.''
      else let q = rev (dropWhile (\<lambda>c. c = CHR ''/'') (rev p));
               e = rev (takeWhile (\<lambda>c. c \<noteq> CHR ''/'') (rev q))
           in if e = [] then ''/'' else e)"

fun split_path :: "path \<Rightarrow> string list" where
  "split_path [] = [[]]"
| "split_path (c # cs) =
     (if c = CHR ''/'' then [] # split_path cs
      else (case split_path cs of [] \<Rightarrow> [[c]] | e # es \<Rightarrow> (c # e) # es))"

definition clean_step :: "bool \<Rightarrow> string list \<Rightarrow> string \<Rightarrow> string list" where
  "clean_step rooted out e =
     (if e = [] \<or> e = ''.'' then out
      else if e = ''..'' then
        (if out \<noteq> [] \<and> last out \<noteq> ''..'' then butlast out
         else if \<not> rooted then out @ [''..'']
         else out)
      else out @ [e])"

definition Clean :: "path \<Rightarrow> path" where
  "Clean p =
     (if p = [] then ''.''
      else let rooted = (hd p = CHR ''/'');
               out = foldl (clean_step rooted) [] (split_path p)
           in if rooted then CHR ''/'' # strings_Join out ''/''
              else if out = [] then ''.''
              else strings_Join out ''/'')"

definition filepath_Join :: "path \<Rightarrow> path \<Rightarrow> path" where
  "filepath_Join a b =
     (if a \<noteq> [] then Clean (a @ ''/'' @ b)
      else if b \<noteq> [] then Clean b
      else [])"

text \<open>The verb \<^verbatim>\<open>%x\<close> on a byte array: two lower-case hexadecimal digits a byte.\<close>

definition hex_digit :: "nat \<Rightarrow> char" where
  "hex_digit n = ''0123456789abcdef'' ! (n mod 16)"

definition hex_byte :: "8 word \<Rightarrow> string" where
  "hex_byte b = [hex_digit (unat b div 16), hex_digit (unat b mod 16)]"

definition hex_digest :: "digest \<Rightarrow> string" where
  "hex_digest d = concat (map hex_byte (Rep_digest d))"

text \<open>
  Line 287: \<^verbatim>\<open>fmt.Sprintf("%s.%x.%s", filepath.Base(fn), sha256.Sum256([]byte(fn)),
  s.String())\<close>, joined to the scratch directory.
\<close>

definition scratch_name :: "stdlib \<Rightarrow> path \<Rightarrow> PartialResponseStrategy \<Rightarrow> string" where
  "scratch_name L fn s = Base fn @ ''.'' @ hex_digest (Sum256 L fn) @ ''.'' @ String s"

definition newFn :: "stdlib \<Rightarrow> path \<Rightarrow> path \<Rightarrow> PartialResponseStrategy \<Rightarrow> path" where
  "newFn L wd fn s = filepath_Join wd (scratch_name L fn s)"

section \<open>Reload\<close>

text \<open>
  What one call of \<^verbatim>\<open>Update\<close> meets outside the manager: the answers of the file
  system, of the YAML library and of each engine's own \<^verbatim>\<open>Update\<close>, and the orders
  in which the two loops over maps visit the policies. An engine's \<^verbatim>\<open>Update\<close>
  answers a file list with an error, keeping its groups, or with the groups loaded.
\<close>

text \<open>
  Each answer is a function of the call's arguments: within one reload the same call gets
  the same answer.
\<close>

record world =
  RemoveAll :: "path \<Rightarrow> string option"
  MkdirAll :: "path \<Rightarrow> string option"
  ReadFile :: "path \<Rightarrow> string + string"
  yaml_documents :: "string \<Rightarrow> string + unmarshal_fn option list"
  yaml_Marshal :: "rulefmt_RuleGroup list \<Rightarrow> string + string"
  WriteFile :: "path \<Rightarrow> string \<Rightarrow> string option"
  mgr_Update :: "PartialResponseStrategy \<Rightarrow> Duration \<Rightarrow> path list \<Rightarrow> string + rules_Group list"
  groups_order :: "path \<Rightarrow> iter_order"
  files_order :: iter_order

definition yaml_Unmarshal :: "world \<Rightarrow> string \<Rightarrow> string + configRuleGroup list" where
  "yaml_Unmarshal w b =
     (case yaml_documents w b of
        Inl err \<Rightarrow> Inl err
      | Inr us \<Rightarrow> unmarshal_groups us)"

datatype runtime_panic = NilDereference

text \<open>
  Lines 268 to 278: the groups of one file by policy. Reading through the pointer
  \<^verbatim>\<open>rg.PartialResponseStrategy\<close> fails when it is \<^verbatim>\<open>nil\<close>.
\<close>

fun groupsByStrategy ::
  "configRuleGroup list \<Rightarrow> (PartialResponseStrategy \<rightharpoonup> rulefmt_RuleGroup list)
     \<Rightarrow> runtime_panic + (PartialResponseStrategy \<rightharpoonup> rulefmt_RuleGroup list)" where
  "groupsByStrategy [] m = Inr m"
| "groupsByStrategy (rg # rgs) m =
     (case crg_Strategy rg of
        None \<Rightarrow> Inl NilDereference
      | Some s \<Rightarrow>
          groupsByStrategy rgs
            (m(s \<mapsto> (case m s of None \<Rightarrow> [] | Some gs \<Rightarrow> gs) @ [crg_RuleGroup rg])))"

record partition =
  errs :: "string list"
  filesByStrategy :: "PartialResponseStrategy \<rightharpoonup> path list"
  new_ruleFiles :: "path \<rightharpoonup> path"

text \<open>Lines 280 to 295: the body of the loop over the policies of one file.\<close>

definition write_bucket ::
  "stdlib \<Rightarrow> world \<Rightarrow> path \<Rightarrow> path \<Rightarrow> (PartialResponseStrategy \<rightharpoonup> rulefmt_RuleGroup list)
     \<Rightarrow> partition \<Rightarrow> PartialResponseStrategy \<Rightarrow> partition" where
  "write_bucket L w wd fn gbs st s =
     (case gbs s of
        None \<Rightarrow> st
      | Some rg \<Rightarrow>
         (case yaml_Marshal w rg of
            Inl err \<Rightarrow> st\<lparr>errs := errs st @ [Wrap err (fn @ '': failed to marshal rule groups'')]\<rparr>
          | Inr b \<Rightarrow>
             (case WriteFile w (newFn L wd fn s) b of
                Some err \<Rightarrow> st\<lparr>errs := errs st @ [Wrap err (newFn L wd fn s)]\<rparr>
              | None \<Rightarrow>
                  st\<lparr>filesByStrategy := (filesByStrategy st)
                        (s \<mapsto> (case filesByStrategy st s of None \<Rightarrow> [] | Some fs \<Rightarrow> fs)
                                  @ [newFn L wd fn s]),
                     new_ruleFiles := (new_ruleFiles st)(newFn L wd fn s \<mapsto> fn)\<rparr>)))"

text \<open>Lines 253 to 296: the body of the loop over the files.\<close>

definition Update_file ::
  "stdlib \<Rightarrow> world \<Rightarrow> path \<Rightarrow> partition \<Rightarrow> path \<Rightarrow> runtime_panic + partition" where
  "Update_file L w wd st fn =
     (case ReadFile w fn of
        Inl err \<Rightarrow> Inr (st\<lparr>errs := errs st @ [err]\<rparr>)
      | Inr b \<Rightarrow>
         (case yaml_Unmarshal w b of
            Inl err \<Rightarrow> Inr (st\<lparr>errs := errs st @ [Wrap err fn]\<rparr>)
          | Inr rg \<Rightarrow>
             (case groupsByStrategy rg Map.empty of
                Inl p \<Rightarrow> Inl p
              | Inr gbs \<Rightarrow>
                  Inr (foldl (write_bucket L w wd fn gbs) st
                         (range_keys (groups_order w fn) gbs)))))"

fun Update_files ::
  "stdlib \<Rightarrow> world \<Rightarrow> path \<Rightarrow> path list \<Rightarrow> partition \<Rightarrow> runtime_panic + partition" where
  "Update_files L w wd [] st = Inr st"
| "Update_files L w wd (fn # fns) st =
     (case Update_file L w wd st fn of
        Inl p \<Rightarrow> Inl p
      | Inr st' \<Rightarrow> Update_files L w wd fns st')"

text \<open>Lines 299 to 311: the body of the loop over \<^verbatim>\<open>filesByStrategy\<close>.\<close>

definition push_files ::
  "world \<Rightarrow> Duration \<Rightarrow> (PartialResponseStrategy \<rightharpoonup> path list)
     \<Rightarrow> string list \<times> (PartialResponseStrategy \<rightharpoonup> rules_Manager) \<Rightarrow> PartialResponseStrategy
     \<Rightarrow> string list \<times> (PartialResponseStrategy \<rightharpoonup> rules_Manager)" where
  "push_files w evalInterval fbs acc s =
     (case fbs s of
        None \<Rightarrow> acc
      | Some fs \<Rightarrow>
         (case snd acc s of
            None \<Rightarrow> (fst acc @ [''no manager found for '' @ String s], snd acc)
          | Some mgr \<Rightarrow>
             (case mgr_Update w s evalInterval fs of
                Inl err \<Rightarrow> (fst acc @ [Wrap err (''strategy '' @ String s)], snd acc)
              | Inr gs \<Rightarrow> (fst acc, (snd acc)(s \<mapsto> mgr\<lparr>mgr_RuleGroups := gs\<rparr>)))))"

definition Update ::
  "stdlib \<Rightarrow> world \<Rightarrow> Manager \<Rightarrow> Duration \<Rightarrow> path list
     \<Rightarrow> runtime_panic + (reload_error option \<times> Manager)" where
  "Update L w m evalInterval files =
     (case RemoveAll w (workDir m) of
        Some err \<Rightarrow> Inr (Some (Failure (Wrap err (''failed to remove '' @ workDir m))), m)
      | None \<Rightarrow>
         (case MkdirAll w (workDir m) of
            Some err \<Rightarrow> Inr (Some (Failure (Wrap err (''failed to create '' @ workDir m))), m)
          | None \<Rightarrow>
             (case Update_files L w (workDir m) files
                     \<lparr>errs = [], filesByStrategy = Map.empty, new_ruleFiles = Map.empty\<rparr> of
                Inl p \<Rightarrow> Inl p
              | Inr st \<Rightarrow>
                 (let pushed = foldl (push_files w evalInterval (filesByStrategy st))
                                 (errs st, mgrs m)
                                 (range_keys (files_order w) (filesByStrategy st))
                  in Inr (Err (fst pushed),
                          m\<lparr>mgrs := snd pushed, ruleFiles := new_ruleFiles st\<rparr>)))))"

subsection \<open>\<^verbatim>\<open>NewManager\<close>\<close>

definition tmpRuleDir :: string where
  "tmpRuleDir = ''.tmp-rules''"

definition NewManager :: "path \<Rightarrow> Manager" where
  "NewManager dataDir =
     \<lparr>workDir = filepath_Join dataDir tmpRuleDir,
      mgrs = foldl (\<lambda>ms s. ms(s \<mapsto> \<lparr>mgr_RuleGroups = []\<rparr>)) Map.empty
               (map snd PartialResponseStrategy_table),
      ruleFiles = Map.empty\<rparr>"

section \<open>Notions used in the statements\<close>

text \<open>The kinds a request selects, and the four identity fields of an output group.\<close>

definition of_kind :: "RulesRequest_Type \<Rightarrow> Rule \<Rightarrow> bool" where
  "of_kind t rule =
     (case t of
        RulesRequest_ALL \<Rightarrow> True
      | RulesRequest_ALERTING \<Rightarrow> GetAlert rule \<noteq> None
      | RulesRequest_RECORDING \<Rightarrow> GetRecording rule \<noteq> None)"

definition emit :: "RulesRequest_Type \<Rightarrow> RuleGroup \<Rightarrow> RuleGroup" where
  "emit t pg = (if t = RulesRequest_ALL then pg
                else RuleGroup_zero\<lparr>Rules := filter (of_kind t) (Rules pg)\<rparr>)"

definition identity :: "RuleGroup \<Rightarrow> string \<times> string \<times> float64 \<times> PartialResponseStrategy" where
  "identity pg = (Name pg, File pg, Interval pg, Strategy pg)"

text \<open>
  The scratch files collected for a policy; the groups of one policy in a parsed file, in
  the file's order; the file's groups by policy.
\<close>

definition files_of :: "partition \<Rightarrow> PartialResponseStrategy \<Rightarrow> path list" where
  "files_of st s = (case filesByStrategy st s of None \<Rightarrow> [] | Some fs \<Rightarrow> fs)"

definition bucket :: "configRuleGroup list \<Rightarrow> PartialResponseStrategy \<Rightarrow> rulefmt_RuleGroup list" where
  "bucket gs s = map crg_RuleGroup (filter (\<lambda>rg. crg_Strategy rg = Some s) gs)"

definition buckets ::
  "configRuleGroup list \<Rightarrow> PartialResponseStrategy \<rightharpoonup> rulefmt_RuleGroup list" where
  "buckets gs s = (if bucket gs s = [] then None else Some (bucket gs s))"

text \<open>
  File \<open>fn\<close> was read and parsed, it holds a group of policy \<open>s\<close>, and the groups of
  that policy were serialised and written to the scratch file.
\<close>

definition scratch_written ::
  "stdlib \<Rightarrow> world \<Rightarrow> path \<Rightarrow> path \<Rightarrow> PartialResponseStrategy \<Rightarrow> bool" where
  "scratch_written L w wd fn s =
     (case ReadFile w fn of
        Inl err \<Rightarrow> False
      | Inr b \<Rightarrow>
         (case yaml_Unmarshal w b of
            Inl err \<Rightarrow> False
          | Inr gs \<Rightarrow>
              bucket gs s \<noteq> [] \<and>
              (case yaml_Marshal w (bucket gs s) of
                 Inl err \<Rightarrow> False
               | Inr out \<Rightarrow> WriteFile w (newFn L wd fn s) out = None)))"

text \<open>
  File \<open>fn\<close> cannot be read, or cannot be parsed, or every group parsed from it has its
  policy pointer set (none of its items is null).
\<close>

definition policies_set :: "world \<Rightarrow> path \<Rightarrow> bool" where
  "policies_set w fn =
     (case ReadFile w fn of
        Inl err \<Rightarrow> True
      | Inr b \<Rightarrow>
         (case yaml_Unmarshal w b of
            Inl err \<Rightarrow> True
          | Inr gs \<Rightarrow> list_all (\<lambda>rg. crg_Strategy rg \<noteq> None) gs))"

text \<open>
  What the push of the file list \<open>fs\<close> does to the engine of policy \<open>s\<close>: without an
  engine an error is recorded; otherwise the engine's own \<^verbatim>\<open>Update\<close> runs on \<open>fs\<close>,
  and either its error is recorded and the engine keeps its groups, or the engine holds
  the groups loaded.
\<close>

definition engine_pushed ::
  "world \<Rightarrow> Duration \<Rightarrow> PartialResponseStrategy \<Rightarrow> path list
     \<Rightarrow> rules_Manager option \<Rightarrow> rules_Manager option \<Rightarrow> string list \<Rightarrow> bool" where
  "engine_pushed w d s fs before after es =
     (case before of
        None \<Rightarrow> after = None \<and> (''no manager found for '' @ String s) \<in> set es
      | Some mgr \<Rightarrow>
         (case mgr_Update w s d fs of
            Inl err \<Rightarrow> after = Some mgr \<and> Wrap err (''strategy '' @ String s) \<in> set es
          | Inr gs \<Rightarrow> after = Some (mgr\<lparr>mgr_RuleGroups := gs\<rparr>)))"

text \<open>Orderings and invariants of the partition built by the loop over the files.\<close>

definition grows :: "partition \<Rightarrow> partition \<Rightarrow> bool" where
  "grows st st' \<longleftrightarrow>
     set (errs st) \<subseteq> set (errs st') \<and>
     (\<forall>s. set (files_of st s) \<subseteq> set (files_of st' s)) \<and>
     dom (new_ruleFiles st) \<subseteq> dom (new_ruleFiles st')"

definition named :: "stdlib \<Rightarrow> path \<Rightarrow> path set \<Rightarrow> (path \<rightharpoonup> path) \<Rightarrow> bool" where
  "named L wd F rf \<longleftrightarrow> (\<forall>k v. rf k = Some v \<longrightarrow> v \<in> F \<and> (\<exists>s. k = newFn L wd v s))"

text \<open>
  The part of a cleaned scratch path before its last element, and the base name as it
  stands in that last element.
\<close>

definition core :: "string \<Rightarrow> string" where
  "core b = (if b = ''/'' then [] else b)"

definition dir_prefix :: "path \<Rightarrow> string" where
  "dir_prefix a =
     (let rooted = (hd a = CHR ''/''); out = foldl (clean_step rooted) [] (split_path a)
      in (if rooted then ''/'' else []) @ (if out = [] then [] else strings_Join out ''/'' @ ''/''))"

section \<open>Sample inputs\<close>

text \<open>
  Stand-ins for the library functions, to run the model on the inputs below: whole
  seconds, one fixed text for every number, and a digest that repeats the length of the
  path.
\<close>

definition stub_lib :: stdlib where
  "stub_lib = \<lparr>Seconds = (\<lambda>d. word_of_int (d div 1000000000)),
               FormatFloat_e = (\<lambda>v. ''0e+00''),
               Sum256 = (\<lambda>fn. Abs_digest (replicate 32 (of_nat (length fn))))\<rparr>"

definition demo_alert :: rules_Rule where
  "demo_alert = AlertingRule
     \<lparr>ar_Name = ''HighLatency'', ar_Query = ''latency > 1'', ar_Duration = 0,
      ar_Labels = [], ar_Annotations = [], ar_State = StateInactive, ar_ActiveAlerts = [],
      ar_Health = ''ok'', ar_LastError = None, ar_EvaluationDuration = 0,
      ar_EvaluationTimestamp = 0\<rparr>"

definition demo_recording :: rules_Rule where
  "demo_recording = RecordingRule
     \<lparr>rr_Name = ''job:up:sum'', rr_Query = ''sum(up)'', rr_Labels = [], rr_Health = ''ok'',
      rr_LastError = None, rr_EvaluationDuration = 0, rr_EvaluationTimestamp = 0\<rparr>"

text \<open>
  A manager after a reload of two files: the engine of \<open>WARN\<close> holds a group with two
  alerting rules and a recording rule between them, the engine of \<open>ABORT\<close> a group with
  one recording rule.
\<close>

definition demo_manager :: Manager where
  "demo_manager =
     \<lparr>workDir = ''/data/.tmp-rules'',
      mgrs = [WARN \<mapsto> \<lparr>mgr_RuleGroups =
                 [\<lparr>grp_Name = ''alerts'', grp_File = ''/data/.tmp-rules/a.yaml.0a.WARN'',
                   grp_Interval = 60000000000,
                   grp_Rules = [demo_alert, demo_recording, demo_alert]\<rparr>]\<rparr>,
              ABORT \<mapsto> \<lparr>mgr_RuleGroups =
                 [\<lparr>grp_Name = ''records'', grp_File = ''/data/.tmp-rules/b.yaml.0b.ABORT'',
                   grp_Interval = 60000000000, grp_Rules = [demo_recording]\<rparr>]\<rparr>],
      ruleFiles = [''/data/.tmp-rules/a.yaml.0a.WARN'' \<mapsto> ''/rules/a.yaml'',
                   ''/data/.tmp-rules/b.yaml.0b.ABORT'' \<mapsto> ''/rules/b.yaml'']\<rparr>"

text \<open>
  A world for reloads. Five files exist: \<^verbatim>\<open>a.yaml\<close> and \<^verbatim>\<open>c.yaml\<close> hold a
  group tagged \<^verbatim>\<open>warn\<close>, \<^verbatim>\<open>b.yaml\<close> an untagged group, \<^verbatim>\<open>bogus.yaml\<close>
  a group tagged \<^verbatim>\<open>bogus\<close>, and \<^verbatim>\<open>null.yaml\<close> is the text
  \<^verbatim>\<open>groups: [null]\<close>, a null item in place of a group. Every write succeeds, and an
  engine loads one group from each file it is given. In the second world every engine
  refuses its file list.
\<close>

definition demo_group :: "string \<Rightarrow> string \<Rightarrow> unmarshal_fn" where
  "demo_group n tag =
     \<lparr>into_rs = Inr tag, into_rg = Inr \<lparr>fmt_Name = n, fmt_Interval = 0, fmt_Rules = []\<rparr>\<rparr>"

definition demo_world :: world where
  "demo_world =
     \<lparr>RemoveAll = (\<lambda>p. None),
      MkdirAll = (\<lambda>p. None),
      ReadFile = (\<lambda>fn. if fn = ''/rules/a.yaml'' \<or> fn = ''/rules/c.yaml'' then Inr ''a''
                        else if fn = ''/rules/b.yaml'' then Inr ''b''
                        else if fn = ''/rules/bogus.yaml'' then Inr ''x''
                        else if fn = ''/rules/null.yaml'' then Inr ''n''
                        else Inl (''open '' @ fn @ '': no such file or directory'')),
      yaml_documents = (\<lambda>b. if b = ''a'' then Inr [Some (demo_group ''alerts'' ''warn'')]
                        else if b = ''b'' then Inr [Some (demo_group ''records'' [])]
                        else if b = ''x'' then Inr [Some (demo_group ''broken'' ''bogus'')]
                        else if b = ''n'' then Inr [None]
                        else Inl ''yaml: unmarshal errors''),
      yaml_Marshal = (\<lambda>gs. Inr ''groups''),
      WriteFile = (\<lambda>p b. None),
      mgr_Update = (\<lambda>s d fs. Inr (map (\<lambda>f. \<lparr>grp_Name = ''loaded'', grp_File = f,
                                            grp_Interval = d, grp_Rules = []\<rparr>) fs)),
      groups_order = (\<lambda>fn. WarnFirst),
      files_order = WarnFirst\<rparr>"

definition refusing_world :: world where
  "refusing_world =
     demo_world\<lparr>mgr_Update := (\<lambda>s d fs. Inl ''error loading rules, previous rule set restored'')\<rparr>"

definition unwritable_world :: world where
  "unwritable_world = demo_world\<lparr>RemoveAll := (\<lambda>p. Some ''permission denied'')\<rparr>"

text \<open>The managers that the reloads of the sample files leave behind.\<close>

definition loaded_group :: "path \<Rightarrow> PartialResponseStrategy \<Rightarrow> rules_Group" where
  "loaded_group fn s =
     \<lparr>grp_Name = ''loaded'', grp_File = newFn stub_lib ''/data/.tmp-rules'' fn s,
      grp_Interval = 60000000000, grp_Rules = []\<rparr>"

definition manager_with :: "rules_Group list \<Rightarrow> rules_Group list \<Rightarrow> (path \<rightharpoonup> path) \<Rightarrow> Manager" where
  "manager_with warn abort index =
     \<lparr>workDir = ''/data/.tmp-rules'',
      mgrs = [WARN \<mapsto> \<lparr>mgr_RuleGroups = warn\<rparr>, ABORT \<mapsto> \<lparr>mgr_RuleGroups = abort\<rparr>],
      ruleFiles = index\<rparr>"

section \<open>Projection and filtering\<close>

lemma ToProto_rules_Inr:
  "ToProto_rules L s rs ret = Inr out \<Longrightarrow>
     map Inr out = map Inr ret @ map (rule_ToProto L s) rs"
  by (induction L s rs ret rule: ToProto_rules.induct) (auto split: sum.splits)

lemma ToProto_Rules:
  "ToProto L g = Inr pg \<Longrightarrow>
     map Inr (Rules pg) = map (rule_ToProto L (Group_Strategy g)) (grp_Rules (Group_embedded g))"
  by (auto simp: ToProto_def split: sum.splits dest: ToProto_rules_Inr)

lemma filter_rules_eq:
  "t \<noteq> RulesRequest_ALL \<Longrightarrow> filter_rules t rs acc = acc @ filter (of_kind t) rs"
  by (induction t rs acc rule: filter_rules.induct) (auto simp: of_kind_def split: RulesRequest_Type.splits)

lemma Rules_groups_ALL_acc:
  "Rules_groups L RulesRequest_ALL gs pgs =
     (case Rules_groups L RulesRequest_ALL gs [] of
        Inl p \<Rightarrow> Inl p
      | Inr all \<Rightarrow> Inr (pgs @ all))"
proof (induction gs arbitrary: pgs)
  case Nil
  show ?case by simp
next
  case (Cons g gs)
  show ?case
  proof (cases "ToProto L g")
    case (Inl p)
    then show ?thesis by simp
  next
    case (Inr pg)
    show ?thesis
      using Inr Cons.IH [of "pgs @ [pg]"] Cons.IH [of "[pg]"]
      by (cases "Rules_groups L RulesRequest_ALL gs []") simp_all
  qed
qed

lemma Rules_groups_eq:
  "Rules_groups L t gs pgs =
     (case Rules_groups L RulesRequest_ALL gs [] of
        Inl p \<Rightarrow> Inl p
      | Inr all \<Rightarrow> Inr (pgs @ map (emit t) all))"
proof (induction gs arbitrary: pgs)
  case Nil
  show ?case by simp
next
  case (Cons g gs)
  show ?case
  proof (cases "ToProto L g")
    case (Inl p)
    then show ?thesis by simp
  next
    case (Inr pg)
    show ?thesis
    proof (cases "t = RulesRequest_ALL")
      case True
      have "map (emit RulesRequest_ALL) xs = xs" for xs
        by (induction xs) (simp_all add: emit_def)
      then show ?thesis
        using True Rules_groups_ALL_acc [of L "g # gs" pgs]
        by (simp split: sum.splits)
    next
      case False
      show ?thesis
        using Inr False Cons.IH [of "pgs @ [RuleGroup_zero\<lparr>Rules := filter_rules t (Rules pg) []\<rparr>]"]
          Rules_groups_ALL_acc [of L gs "[pg]"]
        by (cases "Rules_groups L RulesRequest_ALL gs []")
           (simp_all add: emit_def filter_rules_eq)
    qed
  qed
qed

lemma Rules_groups_ALL:
  "Rules_groups L RulesRequest_ALL gs [] = Inr all \<Longrightarrow> map Inr all = map (ToProto L) gs"
proof (induction gs arbitrary: all)
  case Nil
  then show ?case by simp
next
  case (Cons g gs)
  then show ?case
    using Rules_groups_ALL_acc [of L gs "[x]" for x]
    by (auto split: sum.splits)
qed

lemma send_all_accepted: "send_all (\<lambda>i pg. None) i pgs = (pgs, None)"
  by (induction pgs arbitrary: i) simp_all

lemma kinds_partition:
  "length (filter (of_kind RulesRequest_ALERTING) rs) + length (filter (of_kind RulesRequest_RECORDING) rs)
     = length rs"
proof (induction rs)
  case Nil
  show ?case by simp
next
  case (Cons r rs)
  then show ?case by (cases r) (simp_all add: of_kind_def)
qed

lemma of_kind_ALERTING: "of_kind RulesRequest_ALERTING = (\<lambda>rule. GetAlert rule \<noteq> None)"
  by (rule ext) (simp add: of_kind_def)

lemma of_kind_RECORDING: "of_kind RulesRequest_RECORDING = (\<lambda>rule. GetRecording rule \<noteq> None)"
  by (rule ext) (simp add: of_kind_def)

text \<open>Every group of a filtered response has the identity of the empty literal.\<close>

lemma Rules_filtered_identity:
  assumes "t \<noteq> RulesRequest_ALL" and "Rules_pgs L ord m t = Inr pgs" and "pg \<in> set pgs"
  shows "identity pg = ([], [], 0, WARN)"
proof (cases "Rules_groups L RulesRequest_ALL (RuleGroups ord m) []")
  case (Inl p)
  with assms(2) show ?thesis
    by (simp add: Rules_pgs_def Rules_groups_eq [of L t])
next
  case (Inr all)
  with assms(2) have "pgs = map (emit t) all"
    by (simp add: Rules_pgs_def Rules_groups_eq [of L t])
  with assms(1,3) show ?thesis
    by (auto simp: emit_def identity_def RuleGroup_zero_def)
qed

section \<open>Scratch file names\<close>

lemma split_path_not_Nil: "split_path p \<noteq> []"
  by (induction p) (auto split: list.splits)

lemma split_path_append: "split_path (a @ CHR ''/'' # b) = split_path a @ split_path b"
  by (induction a) (auto split: list.splits simp: split_path_not_Nil)

lemma split_path_plain: "CHR ''/'' \<notin> set e \<Longrightarrow> split_path e = [e]"
  by (induction e) auto

lemma strings_Join_snoc:
  "strings_Join (xs @ [e]) sep = (if xs = [] then e else strings_Join xs sep @ sep @ e)"
  by (induction xs sep rule: strings_Join.induct) auto

lemma Base_not_Nil: "Base p \<noteq> []"
  by (simp add: Base_def Let_def)

lemma Base_shape: "Base p = ''/'' \<or> CHR ''/'' \<notin> set (Base p)"
  by (auto simp: Base_def Let_def dest: set_takeWhileD)

lemma hex_digit_in: "hex_digit n \<in> set ''0123456789abcdef''"
  unfolding hex_digit_def by (rule nth_mem) simp

lemma hex_digit_inj: "hex_digit i = hex_digit j \<Longrightarrow> i mod 16 = j mod 16"
proof -
  assume h: "hex_digit i = hex_digit j"
  have d: "distinct ''0123456789abcdef''" by simp
  have "i mod 16 < length ''0123456789abcdef''" "j mod 16 < length ''0123456789abcdef''"
    by simp_all
  with d h show ?thesis
    unfolding hex_digit_def by (simp only: nth_eq_iff_index_eq)
qed

lemma hex_byte_inj: "hex_byte b = hex_byte c \<Longrightarrow> b = c"
proof -
  assume h: "hex_byte b = hex_byte c"
  have lb: "unat b < 256" and lc: "unat c < 256"
    using unsigned_less [of b, where 'a = nat] unsigned_less [of c, where 'a = nat] by simp_all
  have db: "unat b div 16 < 16" and dc: "unat c div 16 < 16"
    using lb lc by simp_all
  from h have "unat b div 16 mod 16 = unat c div 16 mod 16" and m: "unat b mod 16 = unat c mod 16"
    by (auto simp: hex_byte_def dest: hex_digit_inj)
  with db dc have q: "unat b div 16 = unat c div 16"
    by simp
  have "unat b = 16 * (unat b div 16) + unat b mod 16"
    by simp
  also have "\<dots> = 16 * (unat c div 16) + unat c mod 16"
    by (simp only: q m)
  also have "\<dots> = unat c"
    by simp
  finally show ?thesis by (simp add: word_unat_eq_iff)
qed

lemma length_hex_byte: "length (hex_byte b) = 2"
  by (simp add: hex_byte_def)

lemma length_hex_bytes: "length (concat (map hex_byte xs)) = 2 * length xs"
  by (induction xs) (simp_all add: length_hex_byte)

lemma length_hex_digest: "length (hex_digest d) = 64"
  using Rep_digest [of d] by (simp add: hex_digest_def length_hex_bytes)

lemma hex_bytes_inj:
  "concat (map hex_byte xs) = concat (map hex_byte ys) \<Longrightarrow> length xs = length ys \<Longrightarrow> xs = ys"
proof (induction xs arbitrary: ys)
  case Nil
  then show ?case by simp
next
  case (Cons x xs)
  then obtain y ys' where ys: "ys = y # ys'" by (cases ys) auto
  with Cons.prems have "hex_byte x @ concat (map hex_byte xs) = hex_byte y @ concat (map hex_byte ys')"
    by simp
  then have "hex_byte x = hex_byte y" "concat (map hex_byte xs) = concat (map hex_byte ys')"
    by (simp_all add: length_hex_byte)
  with Cons ys show ?case by (auto dest: hex_byte_inj)
qed

lemma hex_digest_inj: "hex_digest d = hex_digest e \<Longrightarrow> d = e"
proof -
  assume "hex_digest d = hex_digest e"
  moreover have "length (Rep_digest d) = length (Rep_digest e)"
    using Rep_digest [of d] Rep_digest [of e] by simp
  ultimately have "Rep_digest d = Rep_digest e"
    unfolding hex_digest_def by (rule hex_bytes_inj)
  then show ?thesis by (simp add: Rep_digest_inject)
qed

lemma hex_digit_not_slash: "hex_digit n \<noteq> CHR ''/''"
proof
  assume "hex_digit n = CHR ''/''"
  with hex_digit_in [of n] have "CHR ''/'' \<in> set ''0123456789abcdef''"
    by (simp only:)
  then show False by simp
qed

lemma hex_digest_no_slash: "CHR ''/'' \<notin> set (hex_digest d)"
  by (auto simp: hex_digest_def hex_byte_def hex_digit_not_slash [symmetric])

lemma String_suffix_inj: "x @ String s = y @ String t \<Longrightarrow> s = t"
proof -
  assume h: "x @ String s = y @ String t"
  then have "last (x @ String s) = last (y @ String t)" by simp
  then show ?thesis by (cases s; cases t) simp_all
qed

lemma String_no_slash: "CHR ''/'' \<notin> set (String s)"
  by (cases s) simp_all

lemma clean_last:
  assumes b: "b = ''/'' \<or> CHR ''/'' \<notin> set b"
    and r: "CHR ''/'' \<notin> set rest" "3 \<le> length rest"
  shows "foldl (clean_step rooted) out (split_path (b @ rest)) = out @ [core b @ rest]"
proof (cases "b = ''/''")
  case True
  have "split_path (b @ rest) = [[], rest]"
    using True r by (simp add: split_path_plain)
  moreover have "rest \<noteq> []" "rest \<noteq> ''.''" "rest \<noteq> ''..''"
    using r by auto
  ultimately show ?thesis
    using True by (simp add: clean_step_def core_def)
next
  case False
  with b have "CHR ''/'' \<notin> set (b @ rest)" using r by simp
  then have "split_path (b @ rest) = [b @ rest]"
    by (rule split_path_plain)
  moreover have "b @ rest \<noteq> []" "b @ rest \<noteq> ''.''" "b @ rest \<noteq> ''..''"
    using r by (auto simp: append_eq_Cons_conv)
  ultimately show ?thesis
    using False by (simp add: clean_step_def core_def)
qed

lemma Join_last:
  assumes b: "b \<noteq> []" "b = ''/'' \<or> CHR ''/'' \<notin> set b"
    and r: "CHR ''/'' \<notin> set rest" "3 \<le> length rest"
  shows "filepath_Join a (b @ rest) = (if a = [] then b @ rest else dir_prefix a @ core b @ rest)"
proof (cases "a = []")
  case True
  have "hd (b @ rest) = CHR ''/'' \<longleftrightarrow> b = ''/''"
    using b by (cases b) auto
  then show ?thesis
    using True b clean_last [OF b(2) r, of "b = ''/''" "[]"]
    by (auto simp: filepath_Join_def Clean_def Let_def core_def)
next
  case False
  have "split_path (a @ ''/'' @ b @ rest) = split_path a @ split_path (b @ rest)"
    using split_path_append [of a "b @ rest"] by simp
  then show ?thesis
    using False clean_last [OF b(2) r]
    by (simp add: filepath_Join_def Clean_def Let_def dir_prefix_def strings_Join_snoc hd_append)
qed

lemma newFn_shape:
  "newFn L wd fn s =
     (if wd = [] then Base fn else dir_prefix wd @ core (Base fn))
       @ ''.'' @ hex_digest (Sum256 L fn) @ ''.'' @ String s"
proof -
  have r: "CHR ''/'' \<notin> set (''.'' @ hex_digest (Sum256 L fn) @ ''.'' @ String s)"
    by (simp add: hex_digest_no_slash String_no_slash)
  have l: "3 \<le> length (''.'' @ hex_digest (Sum256 L fn) @ ''.'' @ String s)"
    by (simp add: length_hex_digest)
  show ?thesis
    unfolding newFn_def scratch_name_def
    using Join_last [OF Base_not_Nil Base_shape r l, of wd fn] by simp
qed

lemma core_inj: "a \<noteq> [] \<Longrightarrow> b \<noteq> [] \<Longrightarrow> core a = core b \<Longrightarrow> a = b"
  by (auto simp: core_def split: if_splits)

lemma newFn_eq_iff:
  "newFn L wd fn s = newFn L wd fn' s' \<longleftrightarrow>
     Base fn = Base fn' \<and> Sum256 L fn = Sum256 L fn' \<and> s = s'"
proof
  assume eq: "newFn L wd fn s = newFn L wd fn' s'"
  define pre where "pre f = (if wd = [] then Base f else dir_prefix wd @ core (Base f))" for f
  from eq have e: "pre fn @ ''.'' @ hex_digest (Sum256 L fn) @ ''.'' @ String s
      = pre fn' @ ''.'' @ hex_digest (Sum256 L fn') @ ''.'' @ String s'"
    by (simp add: newFn_shape pre_def)
  then have "(pre fn @ ''.'' @ hex_digest (Sum256 L fn) @ ''.'') @ String s
      = (pre fn' @ ''.'' @ hex_digest (Sum256 L fn') @ ''.'') @ String s'"
    by simp
  then have s: "s = s'" by (rule String_suffix_inj)
  with e have "(pre fn @ ''.'') @ hex_digest (Sum256 L fn) = (pre fn' @ ''.'') @ hex_digest (Sum256 L fn')"
    by simp
  then have p: "pre fn = pre fn'" and h: "hex_digest (Sum256 L fn) = hex_digest (Sum256 L fn')"
    by (simp_all add: length_hex_digest)
  from p have "Base fn = Base fn'"
    using core_inj [OF Base_not_Nil Base_not_Nil, of fn fn']
    by (auto simp: pre_def split: if_splits)
  with s h show "Base fn = Base fn' \<and> Sum256 L fn = Sum256 L fn' \<and> s = s'"
    by (simp add: hex_digest_inj)
next
  assume "Base fn = Base fn' \<and> Sum256 L fn = Sum256 L fn' \<and> s = s'"
  then show "newFn L wd fn s = newFn L wd fn' s'"
    by (simp add: newFn_def scratch_name_def)
qed

section \<open>The loops of the reload\<close>

lemma grows_refl: "grows st st"
  by (simp add: grows_def)

lemma grows_trans: "grows a b \<Longrightarrow> grows b c \<Longrightarrow> grows a c"
  unfolding grows_def by blast

lemma write_bucket_grows: "grows st (write_bucket L w wd fn gbs st s)"
  by (auto simp: write_bucket_def grows_def files_of_def split: option.splits sum.splits)

lemma foldl_write_grows: "grows st (foldl (write_bucket L w wd fn gbs) st ks)"
proof (induction ks arbitrary: st)
  case Nil
  show ?case by (simp add: grows_refl)
next
  case (Cons k ks)
  show ?case
    using write_bucket_grows [of st L w wd fn gbs k] Cons.IH [of "write_bucket L w wd fn gbs st k"]
    by (auto intro: grows_trans)
qed

lemma write_bucket_named:
  "fn \<in> F \<Longrightarrow> named L wd F (new_ruleFiles st) \<Longrightarrow>
     named L wd F (new_ruleFiles (write_bucket L w wd fn gbs st s))"
  by (auto simp: write_bucket_def named_def split: option.splits sum.splits)

lemma foldl_write_named:
  "fn \<in> F \<Longrightarrow> named L wd F (new_ruleFiles st) \<Longrightarrow>
     named L wd F (new_ruleFiles (foldl (write_bucket L w wd fn gbs) st ks))"
  by (induction ks arbitrary: st) (simp_all add: write_bucket_named)

lemma write_bucket_good:
  assumes "gbs s = Some rg" "yaml_Marshal w rg = Inr out" "WriteFile w (newFn L wd fn s) out = None"
  shows "newFn L wd fn s \<in> set (files_of (write_bucket L w wd fn gbs st s) s)
       \<and> newFn L wd fn s \<in> dom (new_ruleFiles (write_bucket L w wd fn gbs st s))"
  using assms by (simp add: write_bucket_def files_of_def)

lemma grows_keeps:
  "grows st st' \<Longrightarrow> x \<in> set (files_of st s) \<and> x \<in> dom (new_ruleFiles st) \<Longrightarrow>
     x \<in> set (files_of st' s) \<and> x \<in> dom (new_ruleFiles st')"
  unfolding grows_def by blast

lemma foldl_write_good:
  assumes "gbs s = Some rg" "yaml_Marshal w rg = Inr out" "WriteFile w (newFn L wd fn s) out = None"
  shows "s \<in> set ks \<Longrightarrow>
     newFn L wd fn s \<in> set (files_of (foldl (write_bucket L w wd fn gbs) st ks) s)
       \<and> newFn L wd fn s \<in> dom (new_ruleFiles (foldl (write_bucket L w wd fn gbs) st ks))"
proof (induction ks arbitrary: st)
  case Nil
  then show ?case by simp
next
  case (Cons k ks)
  show ?case
  proof (cases "k = s")
    case True
    have "newFn L wd fn s \<in> set (files_of (write_bucket L w wd fn gbs st s) s)
       \<and> newFn L wd fn s \<in> dom (new_ruleFiles (write_bucket L w wd fn gbs st s))"
      using assms by (rule write_bucket_good)
    with foldl_write_grows [of "write_bucket L w wd fn gbs st s" L w wd fn gbs ks]
    show ?thesis
      using True by (auto dest: grows_keeps)
  next
    case False
    with Cons.prems have "s \<in> set ks" by simp
    then show ?thesis using Cons.IH by simp
  qed
qed

lemma UnmarshalYAML_Some: "UnmarshalYAML u = Inr g \<Longrightarrow> crg_Strategy g \<noteq> None"
  by (auto simp: UnmarshalYAML_def split: sum.splits option.splits if_splits)

lemma unmarshal_groups_Some:
  "None \<notin> set us \<Longrightarrow> unmarshal_groups us = Inr gs \<Longrightarrow> \<forall>g\<in>set gs. crg_Strategy g \<noteq> None"
proof (induction us arbitrary: gs)
  case Nil
  then show ?case by simp
next
  case (Cons u us)
  then obtain v where "u = Some v" by (cases u) auto
  with Cons show ?case
    by (auto split: sum.splits dest: UnmarshalYAML_Some)
qed

lemma policies_setD:
  "policies_set w fn \<Longrightarrow> ReadFile w fn = Inr b \<Longrightarrow> yaml_Unmarshal w b = Inr gs \<Longrightarrow>
     \<forall>g\<in>set gs. crg_Strategy g \<noteq> None"
  by (simp add: policies_set_def list_all_iff)

lemma groupsByStrategy_nil:
  "\<exists>g\<in>set gs. crg_Strategy g = None \<Longrightarrow> groupsByStrategy gs m = Inl NilDereference"
proof (induction gs arbitrary: m)
  case Nil
  then show ?case by simp
next
  case (Cons g gs)
  then show ?case by (cases "crg_Strategy g") auto
qed

lemma groupsByStrategy_Inr:
  "\<forall>g\<in>set gs. crg_Strategy g \<noteq> None \<Longrightarrow>
     groupsByStrategy gs m =
       Inr (\<lambda>s. if bucket gs s = [] then m s
               else Some ((case m s of None \<Rightarrow> [] | Some x \<Rightarrow> x) @ bucket gs s))"
proof (induction gs arbitrary: m)
  case Nil
  show ?case by (simp add: bucket_def)
next
  case (Cons g gs)
  then obtain s0 where s0: "crg_Strategy g = Some s0" by auto
  have "groupsByStrategy (g # gs) m =
      groupsByStrategy gs (m(s0 \<mapsto> (case m s0 of None \<Rightarrow> [] | Some x \<Rightarrow> x) @ [crg_RuleGroup g]))"
    using s0 by simp
  also have "\<dots> = Inr (\<lambda>s. if bucket (g # gs) s = [] then m s
               else Some ((case m s of None \<Rightarrow> [] | Some x \<Rightarrow> x) @ bucket (g # gs) s))"
    using Cons.prems s0 by (subst Cons.IH) (auto simp: bucket_def fun_eq_iff)
  finally show ?case .
qed

lemma groupsByStrategy_empty:
  "\<forall>g\<in>set gs. crg_Strategy g \<noteq> None \<Longrightarrow> groupsByStrategy gs Map.empty = Inr (buckets gs)"
  by (simp add: groupsByStrategy_Inr buckets_def fun_eq_iff)

lemma Update_file_parsed:
  "policies_set w fn \<Longrightarrow> ReadFile w fn = Inr b \<Longrightarrow> yaml_Unmarshal w b = Inr gs \<Longrightarrow>
     Update_file L w wd st fn =
       Inr (foldl (write_bucket L w wd fn (buckets gs)) st (range_keys (groups_order w fn) (buckets gs)))"
  using policies_setD [of w fn b gs] by (simp add: Update_file_def groupsByStrategy_empty)

lemma Update_file_nil:
  assumes "\<not> policies_set w fn"
  shows "Update_file L w wd st fn = Inl NilDereference"
proof -
  from assms obtain b gs where r: "ReadFile w fn = Inr b" and u: "yaml_Unmarshal w b = Inr gs"
    and n: "\<exists>g\<in>set gs. crg_Strategy g = None"
    by (auto simp: policies_set_def list_all_iff split: sum.splits)
  from n have "groupsByStrategy gs Map.empty = Inl NilDereference"
    by (rule groupsByStrategy_nil)
  with r u show ?thesis by (simp add: Update_file_def)
qed

lemma Update_file_total:
  assumes ps: "policies_set w fn"
  shows "\<exists>st'. Update_file L w wd st fn = Inr st' \<and> grows st st'
      \<and> (fn \<in> F \<and> named L wd F (new_ruleFiles st) \<longrightarrow> named L wd F (new_ruleFiles st'))"
proof (cases "ReadFile w fn")
  case (Inl err)
  then show ?thesis by (auto simp: Update_file_def grows_def files_of_def named_def)
next
  case (Inr b)
  show ?thesis
  proof (cases "yaml_Unmarshal w b")
    case (Inl err)
    with Inr show ?thesis by (auto simp: Update_file_def grows_def files_of_def named_def)
  next
    case (Inr gs)
    with \<open>ReadFile w fn = Inr b\<close> ps show ?thesis
      by (simp add: Update_file_parsed foldl_write_grows foldl_write_named)
  qed
qed

lemma Update_files_total:
  "\<forall>fn\<in>set files. policies_set w fn \<Longrightarrow>
   \<exists>st'. Update_files L w wd files st = Inr st' \<and> grows st st'
      \<and> (set files \<subseteq> F \<and> named L wd F (new_ruleFiles st) \<longrightarrow> named L wd F (new_ruleFiles st'))"
proof (induction files arbitrary: st)
  case Nil
  show ?case by (simp add: grows_refl)
next
  case (Cons fn fns)
  obtain st1 where 1: "Update_file L w wd st fn = Inr st1" "grows st st1"
      "fn \<in> F \<and> named L wd F (new_ruleFiles st) \<longrightarrow> named L wd F (new_ruleFiles st1)"
    using Update_file_total [of w fn L wd st F] Cons.prems by auto
  obtain st2 where 2: "Update_files L w wd fns st1 = Inr st2" "grows st1 st2"
      "set fns \<subseteq> F \<and> named L wd F (new_ruleFiles st1) \<longrightarrow> named L wd F (new_ruleFiles st2)"
    using Cons.IH [of st1] Cons.prems by auto
  show ?case using 1 2 by (auto intro: grows_trans)
qed

lemma Update_files_keeps:
  assumes step: "\<And>st0 st1. Update_file L w wd st0 fn = Inr st1 \<Longrightarrow> Q st1"
    and mono: "\<And>st1 st2. Q st1 \<Longrightarrow> grows st1 st2 \<Longrightarrow> Q st2"
  shows "\<forall>f\<in>set files. policies_set w f \<Longrightarrow> fn \<in> set files \<Longrightarrow>
     Update_files L w wd files st = Inr st' \<Longrightarrow> Q st'"
proof (induction files arbitrary: st)
  case Nil
  then show ?case by simp
next
  case (Cons f fns)
  obtain st1 where 1: "Update_file L w wd st f = Inr st1"
    using Update_file_total [of w f L wd st "{}"] Cons.prems(1) by auto
  with Cons.prems have 2: "Update_files L w wd fns st1 = Inr st'" by simp
  have ps: "\<forall>f\<in>set fns. policies_set w f"
    using Cons.prems(1) by simp
  show ?case
  proof (cases "f = fn")
    case True
    have "Q st1" using 1 True step by blast
    moreover have "grows st1 st'"
      using Update_files_total [OF ps, of L wd st1] 2 by auto
    ultimately show ?thesis by (rule mono)
  next
    case False
    with Cons.prems have "fn \<in> set fns" by simp
    with ps show ?thesis using 2 by (rule Cons.IH)
  qed
qed

text \<open>
  The reload panics exactly at the first file that parses to a group whose policy pointer
  is \<^verbatim>\<open>nil\<close>: the files before it were gone through, the files after it are not.
\<close>

lemma Update_files_nil:
  "\<forall>f\<in>set pre. policies_set w f \<Longrightarrow> \<not> policies_set w fn \<Longrightarrow>
     Update_files L w wd (pre @ fn # post) st = Inl NilDereference"
proof (induction pre arbitrary: st)
  case Nil
  then show ?case by (simp add: Update_file_nil)
next
  case (Cons f pre)
  obtain st1 where "Update_file L w wd st f = Inr st1"
    using Update_file_total [of w f L wd st "{}"] Cons.prems(1) by auto
  with Cons show ?case by simp
qed

lemma Update_nil:
  "RemoveAll w (workDir m) = None \<Longrightarrow> MkdirAll w (workDir m) = None \<Longrightarrow>
   \<forall>f\<in>set pre. policies_set w f \<Longrightarrow> \<not> policies_set w fn \<Longrightarrow>
     Update L w m d (pre @ fn # post) = Inl NilDereference"
  by (simp add: Update_def Update_files_nil)

lemma push_loop:
  assumes "foldl (push_files w d fbs) (es0, ms) (range_keys ord fbs) = (es, ms')"
  shows "set es0 \<subseteq> set es \<and>
         (case fbs s of None \<Rightarrow> ms' s = ms s | Some fs \<Rightarrow> engine_pushed w d s fs (ms s) (ms' s) es)"
  using assms
  by (cases ord; cases s; cases "fbs WARN"; cases "fbs ABORT")
     (auto simp: range_keys_def push_files_def engine_pushed_def split: option.splits sum.splits)

section \<open>Evaluation of the sample inputs\<close>

lemmas listing_defs = Rules_pgs_def RuleGroups_def range_keys_def lookup_file_def ToProto_def
  ActiveAlertsToProto_def lastError_text_def RuleGroup_zero_def identity_def
  demo_manager_def demo_alert_def demo_recording_def stub_lib_def

lemmas reload_defs = Update_def Update_file_def yaml_Unmarshal_def UnmarshalYAML_def
  write_bucket_def push_files_def range_keys_def Err_def demo_world_def demo_group_def
  refusing_world_def unwritable_world_def manager_with_def loaded_group_def
  ToUpper_def ToUpper_char_def PartialResponseStrategy_value_def PartialResponseStrategy_table_def
  Wrap_def errMsg_def PartialResponseStrategyValues_def

lemma NewManager_data: "NewManager ''/data'' = manager_with [] [] Map.empty"
  by (simp add: NewManager_def manager_with_def filepath_Join_def tmpRuleDir_def Clean_def
        clean_step_def PartialResponseStrategy_table_def)

lemma Base_samples:
  "Base ''/rules/a.yaml'' = ''a.yaml''" "Base ''/rules/b.yaml'' = ''b.yaml''"
  "Base ''/rules/c.yaml'' = ''c.yaml''"
  by (simp_all add: Base_def)

section \<open>Further facts about the reload\<close>


lemma ToUpper_String: "ToUpper (String p) = String p"
  by (cases p) (simp_all add: ToUpper_def ToUpper_char_def)

lemma value_String: "PartialResponseStrategy_value (String p) = Some p"
  by (cases p) (simp_all add: PartialResponseStrategy_value_def PartialResponseStrategy_table_def)

lemma value_Some: "PartialResponseStrategy_value x = Some q \<Longrightarrow> x = String q"
  by (auto simp: PartialResponseStrategy_value_def PartialResponseStrategy_table_def
        split: if_splits)

lemma unmarshal_groups_first_error:
  "\<forall>v. Some v \<in> set pre \<longrightarrow> \<not> isl (UnmarshalYAML v) \<Longrightarrow> UnmarshalYAML u = Inl e \<Longrightarrow>
     unmarshal_groups (pre @ Some u # post) = Inl e"
proof (induction pre)
  case Nil
  then show ?case by simp
next
  case (Cons x pre)
  then show ?case by (cases x) (auto split: sum.splits)
qed

lemma keys_of_all: "s \<in> set (keys_of ord)"
  by (cases ord; cases s) simp_all


text \<open>
  A digest has 32 bytes, so whatever function computes it, among the paths
  \<^verbatim>\<open>/a\<close>, \<^verbatim>\<open>d/a\<close>, \<^verbatim>\<open>dd/a\<close>, and so on, which all have the base name
  \<^verbatim>\<open>a\<close>, two have the same digest. (No two such paths are known for SHA-256.)
\<close>

lemma finite_digest: "finite (UNIV :: digest set)"
proof -
  have "finite {bs :: 8 word list. set bs \<subseteq> UNIV \<and> length bs = 32}"
    by (rule finite_lists_length_eq) simp
  then have "finite (Abs_digest ` {bs :: 8 word list. length bs = 32})"
    by simp
  moreover have "(UNIV :: digest set) = Abs_digest ` {bs :: 8 word list. length bs = 32}"
    using type_definition.Abs_image [OF type_definition_digest] by simp
  ultimately show ?thesis by simp
qed

lemma Base_under: "Base (replicate n CHR ''d'' @ ''/a'') = ''a''"
  by (simp add: Base_def)

lemma digest_collision:
  "\<exists>fn fn'. fn \<noteq> fn' \<and> Base fn = Base fn' \<and> Sum256 L fn = Sum256 L fn'"
proof -
  let ?p = "\<lambda>n :: nat. replicate n CHR ''d'' @ ''/a''"
  have "\<not> inj (\<lambda>n. Sum256 L (?p n))"
  proof
    assume "inj (\<lambda>n. Sum256 L (?p n))"
    then have "finite (UNIV :: nat set)"
      by (rule inj_on_finite [OF _ subset_UNIV finite_digest])
    then show False by simp
  qed
  then obtain i j where ij: "i \<noteq> j" "Sum256 L (?p i) = Sum256 L (?p j)"
    by (auto simp: inj_def)
  from ij(1) have "?p i \<noteq> ?p j" by simp
  with ij(2) show ?thesis
    using Base_under by metis
qed

section \<open>The reload, file by file\<close>

text \<open>
  When the scratch directory was set up and no file of the list parses to a group with a
  \<^verbatim>\<open>nil\<close> policy pointer, the call returns the collected errors as one value
  (\<^verbatim>\<open>MultiError\<close> of the list \<open>es\<close>, or nothing when the list is empty) and a manager
  \<open>m'\<close> such that, for every file of the list: a read error of the file is in \<open>es\<close>;
  a parse error of the file, wrapped with the file's path, is in \<open>es\<close>; and when the file
  parsed, holds a group of policy \<open>s\<close>, and the groups of that policy (in the file's
  order) were serialised and written, then the new index maps the scratch path to a file
  of the list with that very scratch path (the file itself, unless another file of the
  list shares its scratch path), and the engine of \<open>s\<close> was pushed a file list holding
  the scratch path.
\<close>

lemma Update_best_effort:
  assumes rm: "RemoveAll w (workDir m) = None" and mk: "MkdirAll w (workDir m) = None"
    and ps: "\<forall>fn\<in>set files. policies_set w fn"
  shows "\<exists>es m'. Update L w m d files = Inr (Err es, m') \<and>
      (\<forall>fn\<in>set files. \<forall>err. ReadFile w fn = Inl err \<longrightarrow> err \<in> set es) \<and>
      (\<forall>fn\<in>set files. \<forall>b err. ReadFile w fn = Inr b \<and> yaml_Unmarshal w b = Inl err
          \<longrightarrow> Wrap err fn \<in> set es) \<and>
      (\<forall>fn\<in>set files. \<forall>s. scratch_written L w (workDir m) fn s \<longrightarrow>
          (\<exists>fn'\<in>set files. ruleFiles m' (newFn L (workDir m) fn s) = Some fn'
              \<and> newFn L (workDir m) fn' s = newFn L (workDir m) fn s) \<and>
          (\<exists>fs. newFn L (workDir m) fn s \<in> set fs
              \<and> engine_pushed w d s fs (mgrs m s) (mgrs m' s) es))"
proof -
  let ?wd = "workDir m"
  let ?st0 = "\<lparr>errs = [], filesByStrategy = Map.empty, new_ruleFiles = Map.empty\<rparr>"
  obtain st where st: "Update_files L w ?wd files ?st0 = Inr st"
      and nm: "named L ?wd (set files) (new_ruleFiles st)"
    using Update_files_total [OF ps, of L ?wd ?st0 "set files"] by (auto simp: named_def)
  obtain es ms where push:
      "foldl (push_files w d (filesByStrategy st)) (errs st, mgrs m)
         (range_keys (files_order w) (filesByStrategy st)) = (es, ms)"
    by fastforce
  let ?m' = "m\<lparr>mgrs := ms, ruleFiles := new_ruleFiles st\<rparr>"
  have upd: "Update L w m d files = Inr (Err es, ?m')"
    using rm mk st push by (simp add: Update_def)
  have sub: "set (errs st) \<subseteq> set es"
    using push_loop [OF push] by simp
  have mono: "x \<in> set (errs st2)" if "x \<in> set (errs st1)" "grows st1 st2" for x st1 st2
    using that by (auto simp: grows_def)
  have A: "err \<in> set es" if fn: "fn \<in> set files" and r: "ReadFile w fn = Inl err" for fn err
  proof -
    have "err \<in> set (errs st)"
    proof (rule Update_files_keeps [where Q = "\<lambda>st. err \<in> set (errs st)", OF _ _ ps fn st])
      show "err \<in> set (errs st1)" if "Update_file L w ?wd st0 fn = Inr st1" for st0 st1
        using that r by (auto simp: Update_file_def)
    qed (rule mono)
    with sub show ?thesis by blast
  qed
  have B: "Wrap err fn \<in> set es"
    if fn: "fn \<in> set files" and r: "ReadFile w fn = Inr b" "yaml_Unmarshal w b = Inl err"
    for fn b err
  proof -
    have "Wrap err fn \<in> set (errs st)"
    proof (rule Update_files_keeps [where Q = "\<lambda>st. Wrap err fn \<in> set (errs st)", OF _ _ ps fn st])
      show "Wrap err fn \<in> set (errs st1)" if "Update_file L w ?wd st0 fn = Inr st1" for st0 st1
        using that r by (auto simp: Update_file_def)
    qed (rule mono)
    with sub show ?thesis by blast
  qed
  have C: "(\<exists>fn'\<in>set files. ruleFiles ?m' (newFn L ?wd fn s) = Some fn'
              \<and> newFn L ?wd fn' s = newFn L ?wd fn s) \<and>
          (\<exists>fs. newFn L ?wd fn s \<in> set fs \<and> engine_pushed w d s fs (mgrs m s) (mgrs ?m' s) es)"
    if fn: "fn \<in> set files" and sw: "scratch_written L w ?wd fn s" for fn s
  proof -
    from sw obtain b gs out where r: "ReadFile w fn = Inr b" "yaml_Unmarshal w b = Inr gs"
        and bk: "bucket gs s \<noteq> []" and mw: "yaml_Marshal w (bucket gs s) = Inr out"
          "WriteFile w (newFn L ?wd fn s) out = None"
      by (auto simp: scratch_written_def split: sum.splits)
    have key: "s \<in> set (range_keys ord (buckets gs))" for ord
      using bk keys_of_all [of s ord] by (simp add: range_keys_def buckets_def)
    have gb: "buckets gs s = Some (bucket gs s)"
      using bk by (simp add: buckets_def)
    have in_st: "newFn L ?wd fn s \<in> set (files_of st s) \<and> newFn L ?wd fn s \<in> dom (new_ruleFiles st)"
    proof (rule Update_files_keeps [where Q = "\<lambda>st. newFn L ?wd fn s \<in> set (files_of st s)
          \<and> newFn L ?wd fn s \<in> dom (new_ruleFiles st)", OF _ _ ps fn st])
      show "newFn L ?wd fn s \<in> set (files_of st1 s) \<and> newFn L ?wd fn s \<in> dom (new_ruleFiles st1)"
        if "Update_file L w ?wd st0 fn = Inr st1" for st0 st1
        using that gb mw key [of "groups_order w fn"]
          foldl_write_good [where gbs = "buckets gs" and s = s and rg = "bucket gs s" and w = w
            and out = out and L = L and wd = "?wd" and fn = fn and st = st0
            and ks = "range_keys (groups_order w fn) (buckets gs)"]
          ps fn
        by (simp add: Update_file_parsed [OF _ r])
    qed (rule grows_keeps [rotated])
    then obtain v where v: "new_ruleFiles st (newFn L ?wd fn s) = Some v" by blast
    with nm obtain s' where "newFn L ?wd fn s = newFn L ?wd v s'" and vf: "v \<in> set files"
      by (auto simp: named_def)
    then have "newFn L ?wd v s = newFn L ?wd fn s"
      by (simp add: newFn_eq_iff)
    with v vf have 1: "\<exists>fn'\<in>set files. ruleFiles ?m' (newFn L ?wd fn s) = Some fn'
        \<and> newFn L ?wd fn' s = newFn L ?wd fn s"
      by simp
    from in_st obtain fs where fs: "filesByStrategy st s = Some fs" "newFn L ?wd fn s \<in> set fs"
      by (cases "filesByStrategy st s") (auto simp: files_of_def)
    with push_loop [OF push, of s] have "engine_pushed w d s fs (mgrs m s) (ms s) es"
      by simp
    with fs 1 show ?thesis by auto
  qed
  show ?thesis
    using upd A B C by blast
qed

lemma Update_best_effort_sample:
  "RemoveAll demo_world (workDir (NewManager ''/data'')) = None
   \<and> MkdirAll demo_world (workDir (NewManager ''/data'')) = None
   \<and> ReadFile demo_world ''/rules/missing.yaml'' = Inl ''open /rules/missing.yaml: no such file or directory''
   \<and> yaml_Unmarshal demo_world ''x'' = Inl (errMsg @ ''. Got: bogus'')
   \<and> scratch_written stub_lib demo_world (workDir (NewManager ''/data'')) ''/rules/b.yaml'' ABORT
   \<and> (\<exists>es m'. Update stub_lib demo_world (NewManager ''/data'') 60000000000
                  [''/rules/bogus.yaml'', ''/rules/missing.yaml'', ''/rules/b.yaml''] = Inr (Err es, m')
        \<and> ''open /rules/missing.yaml: no such file or directory'' \<in> set es
        \<and> Wrap (errMsg @ ''. Got: bogus'') ''/rules/bogus.yaml'' \<in> set es
        \<and> (\<exists>fn'. ruleFiles m' (newFn stub_lib (workDir (NewManager ''/data'')) ''/rules/b.yaml'' ABORT)
                     = Some fn')
        \<and> (\<exists>fs. newFn stub_lib (workDir (NewManager ''/data'')) ''/rules/b.yaml'' ABORT \<in> set fs
               \<and> engine_pushed demo_world 60000000000 ABORT fs
                    (mgrs (NewManager ''/data'') ABORT) (mgrs m' ABORT) es))"
proof -
  let ?files = "[''/rules/bogus.yaml'', ''/rules/missing.yaml'', ''/rules/b.yaml'']"
  have rm: "RemoveAll demo_world (workDir (NewManager ''/data'')) = None"
    and mk: "MkdirAll demo_world (workDir (NewManager ''/data'')) = None"
    and r1: "ReadFile demo_world ''/rules/missing.yaml''
               = Inl ''open /rules/missing.yaml: no such file or directory''"
    and r2: "ReadFile demo_world ''/rules/bogus.yaml'' = Inr ''x''"
    by (simp_all add: demo_world_def)
  have p2: "yaml_Unmarshal demo_world ''x'' = Inl (errMsg @ ''. Got: bogus'')"
    by (simp add: reload_defs)
  have sw: "scratch_written stub_lib demo_world (workDir (NewManager ''/data'')) ''/rules/b.yaml'' ABORT"
    by (simp add: scratch_written_def bucket_def reload_defs)
  have ps: "\<forall>fn\<in>set ?files. policies_set demo_world fn"
    by (simp add: policies_set_def reload_defs)
  from Update_best_effort [OF rm mk ps, of stub_lib 60000000000]
  obtain es m' where u: "Update stub_lib demo_world (NewManager ''/data'') 60000000000 ?files = Inr (Err es, m')"
    and a: "\<forall>fn\<in>set ?files. \<forall>err. ReadFile demo_world fn = Inl err \<longrightarrow> err \<in> set es"
    and b: "\<forall>fn\<in>set ?files. \<forall>b err. ReadFile demo_world fn = Inr b \<and> yaml_Unmarshal demo_world b = Inl err
          \<longrightarrow> Wrap err fn \<in> set es"
    and c: "\<forall>fn\<in>set ?files. \<forall>s. scratch_written stub_lib demo_world (workDir (NewManager ''/data'')) fn s \<longrightarrow>
          (\<exists>fn'\<in>set ?files. ruleFiles m' (newFn stub_lib (workDir (NewManager ''/data'')) fn s) = Some fn'
              \<and> newFn stub_lib (workDir (NewManager ''/data'')) fn' s
                  = newFn stub_lib (workDir (NewManager ''/data'')) fn s) \<and>
          (\<exists>fs. newFn stub_lib (workDir (NewManager ''/data'')) fn s \<in> set fs
              \<and> engine_pushed demo_world 60000000000 s fs (mgrs (NewManager ''/data'') s) (mgrs m' s) es)"
    by blast
  from a r1 have 1: "''open /rules/missing.yaml: no such file or directory'' \<in> set es"
    by simp
  from b r2 p2 have 2: "Wrap (errMsg @ ''. Got: bogus'') ''/rules/bogus.yaml'' \<in> set es"
    by simp
  from c sw have 3: "(\<exists>fn'. ruleFiles m' (newFn stub_lib (workDir (NewManager ''/data'')) ''/rules/b.yaml'' ABORT)
                     = Some fn')
        \<and> (\<exists>fs. newFn stub_lib (workDir (NewManager ''/data'')) ''/rules/b.yaml'' ABORT \<in> set fs
               \<and> engine_pushed demo_world 60000000000 ABORT fs
                    (mgrs (NewManager ''/data'') ABORT) (mgrs m' ABORT) es)"
    by auto
  from rm mk r1 p2 sw u 1 2 3 show ?thesis by blast
qed

section \<open>The claims\<close>

text \<open>
  Claim C1: for every rule-kind filter, an emitted group has the name, the original file,
  the interval and the policy that the same group has in the unfiltered response.

  The code does not do this. For \<open>ALERTING\<close> and \<open>RECORDING\<close> the emitted group starts
  from the empty literal and only its rule list is filled. At the sample manager the
  unfiltered response carries the four fields of both groups, and both filtered responses
  carry the empty name, the empty file, interval zero and the zero policy (as every
  filtered response does, by \<open>Rules_filtered_identity\<close>).
\<close>

theorem Rules_filter_drops_identity:
  "map_sum id (map identity) (Rules_pgs stub_lib WarnFirst demo_manager RulesRequest_ALL)
     = Inr [(''alerts'', ''/rules/a.yaml'', 60, WARN), (''records'', ''/rules/b.yaml'', 60, ABORT)]
   \<and> map_sum id (map identity) (Rules_pgs stub_lib WarnFirst demo_manager RulesRequest_RECORDING)
     = Inr [([], [], 0, WARN), ([], [], 0, WARN)]
   \<and> map_sum id (map identity) (Rules_pgs stub_lib WarnFirst demo_manager RulesRequest_ALERTING)
     = Inr [([], [], 0, WARN), ([], [], 0, WARN)]"
  by (simp add: listing_defs)

text \<open>
  Claim C2: the policy of a group document. When both decodings of the document succeed,
  with policy string \<open>rs\<close> and rule group \<open>rg\<close>: a string equal to a member's name up
  to the case of its letters resolves to that member; the empty string resolves to
  \<open>ABORT\<close>; any other string makes \<^verbatim>\<open>UnmarshalYAML\<close> fail with a message that ends
  in the string, and then the file \<open>fn\<close> whose first failing group document this is
  (null items may stand before it) contributes to the reload exactly one error, which
  starts with \<open>fn\<close>, and nothing else.
\<close>

theorem UnmarshalYAML_policy:
  assumes rs: "into_rs u = Inr rs" and rg: "into_rg u = Inr rg"
  shows "(ToUpper rs = ToUpper (String p) \<longrightarrow>
            UnmarshalYAML u = Inr \<lparr>crg_RuleGroup = rg, crg_Strategy = Some p\<rparr>)
       \<and> (rs = [] \<longrightarrow> UnmarshalYAML u = Inr \<lparr>crg_RuleGroup = rg, crg_Strategy = Some ABORT\<rparr>)
       \<and> (rs \<noteq> [] \<and> (\<forall>q. ToUpper rs \<noteq> ToUpper (String q)) \<longrightarrow>
            UnmarshalYAML u = Inl (errMsg @ ''. Got: '' @ rs)
            \<and> (ReadFile w fn = Inr b \<and> yaml_documents w b = Inr (pre @ Some u # post)
                 \<and> (\<forall>v. Some v \<in> set pre \<longrightarrow> \<not> isl (UnmarshalYAML v)) \<longrightarrow>
               Update_file L w wd st fn
                 = Inr (st\<lparr>errs := errs st @ [fn @ '': '' @ errMsg @ ''. Got: '' @ rs]\<rparr>)))"
proof (intro conjI impI)
  assume "ToUpper rs = ToUpper (String p)"
  then show "UnmarshalYAML u = Inr \<lparr>crg_RuleGroup = rg, crg_Strategy = Some p\<rparr>"
    using rs rg by (simp add: UnmarshalYAML_def ToUpper_String value_String)
next
  assume "rs = []"
  moreover have "PartialResponseStrategy_value [] = None"
    by (simp add: PartialResponseStrategy_value_def PartialResponseStrategy_table_def)
  ultimately show "UnmarshalYAML u = Inr \<lparr>crg_RuleGroup = rg, crg_Strategy = Some ABORT\<rparr>"
    using rs rg value_String [of ABORT] by (simp add: UnmarshalYAML_def ToUpper_def)
next
  assume other: "rs \<noteq> [] \<and> (\<forall>q. ToUpper rs \<noteq> ToUpper (String q))"
  then have "PartialResponseStrategy_value (ToUpper rs) = None"
    using value_Some [of "ToUpper rs"] by (cases "PartialResponseStrategy_value (ToUpper rs)")
      (auto simp: ToUpper_String)
  with other show fail: "UnmarshalYAML u = Inl (errMsg @ ''. Got: '' @ rs)"
    using rs rg by (simp add: UnmarshalYAML_def)
  assume "ReadFile w fn = Inr b \<and> yaml_documents w b = Inr (pre @ Some u # post)
            \<and> (\<forall>v. Some v \<in> set pre \<longrightarrow> \<not> isl (UnmarshalYAML v))"
  then show "Update_file L w wd st fn
      = Inr (st\<lparr>errs := errs st @ [fn @ '': '' @ errMsg @ ''. Got: '' @ rs]\<rparr>)"
    using unmarshal_groups_first_error [OF _ fail, of pre post]
    by (simp add: Update_file_def yaml_Unmarshal_def Wrap_def)
qed

theorem UnmarshalYAML_policy_witness:
  "UnmarshalYAML (demo_group ''alerts'' ''wArn'')
     = Inr \<lparr>crg_RuleGroup = \<lparr>fmt_Name = ''alerts'', fmt_Interval = 0, fmt_Rules = []\<rparr>,
            crg_Strategy = Some WARN\<rparr>
   \<and> UnmarshalYAML (demo_group ''records'' [])
     = Inr \<lparr>crg_RuleGroup = \<lparr>fmt_Name = ''records'', fmt_Interval = 0, fmt_Rules = []\<rparr>,
            crg_Strategy = Some ABORT\<rparr>
   \<and> UnmarshalYAML (demo_group ''broken'' ''bogus'') = Inl (errMsg @ ''. Got: bogus'')
   \<and> Update_file stub_lib demo_world ''/data/.tmp-rules''
        \<lparr>errs = [], filesByStrategy = Map.empty, new_ruleFiles = Map.empty\<rparr> ''/rules/bogus.yaml''
     = Inr \<lparr>errs = [''/rules/bogus.yaml: '' @ errMsg @ ''. Got: bogus''],
            filesByStrategy = Map.empty, new_ruleFiles = Map.empty\<rparr>"
proof -
  let ?rg = "\<lambda>n. \<lparr>fmt_Name = n, fmt_Interval = 0, fmt_Rules = []\<rparr>"
  have a: "into_rs (demo_group ''alerts'' ''wArn'') = Inr ''wArn''"
      "into_rg (demo_group ''alerts'' ''wArn'') = Inr (?rg ''alerts'')"
      "ToUpper ''wArn'' = ToUpper (String WARN)"
    by (simp_all add: demo_group_def ToUpper_def ToUpper_char_def)
  have b: "into_rs (demo_group ''records'' []) = Inr []"
      "into_rg (demo_group ''records'' []) = Inr (?rg ''records'')"
    by (simp_all add: demo_group_def)
  have c: "into_rs (demo_group ''broken'' ''bogus'') = Inr ''bogus''"
      "into_rg (demo_group ''broken'' ''bogus'') = Inr (?rg ''broken'')"
      "''bogus'' \<noteq> [] \<and> (\<forall>q. ToUpper ''bogus'' \<noteq> ToUpper (String q))"
  proof -
    have "ToUpper ''bogus'' \<noteq> ToUpper (String q)" for q
      by (cases q) (simp_all add: ToUpper_def ToUpper_char_def)
    then show "''bogus'' \<noteq> [] \<and> (\<forall>q. ToUpper ''bogus'' \<noteq> ToUpper (String q))" by simp
  qed (simp_all add: demo_group_def)
  have d: "ReadFile demo_world ''/rules/bogus.yaml'' = Inr ''x''
      \<and> yaml_documents demo_world ''x'' = Inr ([] @ Some (demo_group ''broken'' ''bogus'') # [])
      \<and> (\<forall>v. Some v \<in> set [] \<longrightarrow> \<not> isl (UnmarshalYAML v))"
    by (simp add: demo_world_def)
  from UnmarshalYAML_policy [OF a(1) a(2), of WARN] a(3)
  have 1: "UnmarshalYAML (demo_group ''alerts'' ''wArn'')
     = Inr \<lparr>crg_RuleGroup = ?rg ''alerts'', crg_Strategy = Some WARN\<rparr>"
    by blast
  from UnmarshalYAML_policy [OF b(1) b(2)]
  have 2: "UnmarshalYAML (demo_group ''records'' [])
     = Inr \<lparr>crg_RuleGroup = ?rg ''records'', crg_Strategy = Some ABORT\<rparr>"
    by blast
  from UnmarshalYAML_policy [OF c(1) c(2), of undefined demo_world "''/rules/bogus.yaml''" "''x''"
      "[]" "[]" stub_lib "''/data/.tmp-rules''"
      "\<lparr>errs = [], filesByStrategy = Map.empty, new_ruleFiles = Map.empty\<rparr>"] c(3) d
  have 3: "UnmarshalYAML (demo_group ''broken'' ''bogus'') = Inl (errMsg @ ''. Got: bogus'')"
    and 4: "Update_file stub_lib demo_world ''/data/.tmp-rules''
        \<lparr>errs = [], filesByStrategy = Map.empty, new_ruleFiles = Map.empty\<rparr> ''/rules/bogus.yaml''
     = Inr (\<lparr>errs = [], filesByStrategy = Map.empty, new_ruleFiles = Map.empty\<rparr>
              \<lparr>errs := errs \<lparr>errs = [], filesByStrategy = Map.empty, new_ruleFiles = Map.empty\<rparr>
                 @ [''/rules/bogus.yaml'' @ '': '' @ errMsg @ ''. Got: '' @ ''bogus'']\<rparr>)"
    by simp_all
  from 1 2 3 4 show ?thesis by simp
qed

text \<open>
  Claim C3: a reload in which some files fail to read or parse and others succeed goes
  through every file, returns the errors of the failing files as one value, and still
  partitions, pushes and indexes the groups of the files that parsed.

  The code does this as long as no file of the list holds a null item under
  \<^verbatim>\<open>groups\<close> (\<open>Update_best_effort\<close>). A file with a null item parses without an
  error into a group whose policy pointer is \<^verbatim>\<open>nil\<close>, and the loop over the groups
  reads through that pointer without a check (\<^verbatim>\<open>MarshalYAML\<close> does check it): the
  reload panics (\<open>Update_nil\<close>). Here the list holds a missing file, a file with a null
  item and a good file: the call panics, so the read error is not returned and the good
  file is neither partitioned nor pushed nor indexed; without the file with the null item
  the same call returns the read error and loads the good file.
\<close>

theorem Update_null_group_panics:
  "yaml_Unmarshal demo_world ''n'' = Inr [configRuleGroup_zero]
   \<and> Update stub_lib demo_world (NewManager ''/data'') 60000000000
       [''/rules/missing.yaml'', ''/rules/null.yaml'', ''/rules/b.yaml'']
     = Inl NilDereference
   \<and> Update stub_lib demo_world (NewManager ''/data'') 60000000000
       [''/rules/missing.yaml'', ''/rules/b.yaml'']
     = Inr (Some (MultiError [''open /rules/missing.yaml: no such file or directory'']),
            manager_with [] [loaded_group ''/rules/b.yaml'' ABORT]
              [newFn stub_lib ''/data/.tmp-rules'' ''/rules/b.yaml'' ABORT \<mapsto> ''/rules/b.yaml''])"
  by (simp add: NewManager_data reload_defs configRuleGroup_zero_def fun_eq_iff)

text \<open>
  Claim C4: after a reload with an empty file list the reload returns no error and a
  listing returns no group, whatever was loaded before.

  The code does not do this. The push loop of \<^verbatim>\<open>Update\<close> ranges over
  \<^verbatim>\<open>filesByStrategy\<close>, which has no key when no file was given, so no engine is
  told to drop its files; only the index is replaced (\<open>Update_no_files\<close>). Here a
  first reload loads \<^verbatim>\<open>/rules/b.yaml\<close> into the engine of \<open>ABORT\<close>; the reload
  with the empty list returns no error and leaves the engine its group; the listing still
  shows the group, now with the empty string as its original file.
\<close>

theorem Update_empty_keeps_groups:
  "Update stub_lib demo_world (NewManager ''/data'') 60000000000 [''/rules/b.yaml'']
     = Inr (None, manager_with [] [loaded_group ''/rules/b.yaml'' ABORT]
                    [newFn stub_lib ''/data/.tmp-rules'' ''/rules/b.yaml'' ABORT \<mapsto> ''/rules/b.yaml''])
   \<and> Update stub_lib demo_world
        (manager_with [] [loaded_group ''/rules/b.yaml'' ABORT]
           [newFn stub_lib ''/data/.tmp-rules'' ''/rules/b.yaml'' ABORT \<mapsto> ''/rules/b.yaml''])
        60000000000 []
     = Inr (None, manager_with [] [loaded_group ''/rules/b.yaml'' ABORT] Map.empty)
   \<and> map (\<lambda>g. (grp_Name (Group_embedded g), originalFile g, Group_Strategy g))
        (RuleGroups WarnFirst (manager_with [] [loaded_group ''/rules/b.yaml'' ABORT] Map.empty))
     = [(''loaded'', [], ABORT)]"
  by (simp add: NewManager_data reload_defs RuleGroups_def lookup_file_def fun_eq_iff)

text \<open>
  Claim C5, as amended: the file field of a projected group is the value that the file
  index holds for the group's scratch path, and the empty string when the index has no
  entry for that path. (The claim promised the scratch path itself in that case.) Each
  listed group is a group of the engine of its policy.
\<close>

theorem RuleGroups_originalFile:
  "g \<in> set (RuleGroups ord m) \<Longrightarrow> ToProto L g = Inr pg \<Longrightarrow>
     File pg = (case ruleFiles m (grp_File (Group_embedded g)) of None \<Rightarrow> [] | Some fn \<Rightarrow> fn)
     \<and> (\<exists>r. mgrs m (Group_Strategy g) = Some r \<and> Group_embedded g \<in> set (mgr_RuleGroups r))"
  by (auto simp: RuleGroups_def ToProto_def lookup_file_def range_keys_def
        split: option.splits sum.splits)

theorem RuleGroups_originalFile_witness:
  "\<exists>g pg. g \<in> set (RuleGroups WarnFirst demo_manager) \<and> ToProto stub_lib g = Inr pg
      \<and> grp_File (Group_embedded g) = ''/data/.tmp-rules/a.yaml.0a.WARN''
      \<and> File pg = ''/rules/a.yaml''"
proof -
  define g where "g = hd (RuleGroups WarnFirst demo_manager)"
  have 1: "g \<in> set (RuleGroups WarnFirst demo_manager)"
    and 3: "grp_File (Group_embedded g) = ''/data/.tmp-rules/a.yaml.0a.WARN''"
    by (simp_all add: g_def listing_defs)
  obtain pg where 2: "ToProto stub_lib g = Inr pg"
    by (simp add: g_def listing_defs)
  from RuleGroups_originalFile [OF 1 2] 3
  have "File pg = ''/rules/a.yaml''"
    by (simp add: demo_manager_def)
  with 1 2 3 show ?thesis by blast
qed

text \<open>
  The claim C5 as stated fails. A first reload loads \<^verbatim>\<open>/rules/a.yaml\<close> into the engine
  of \<open>WARN\<close>. A second reload of \<^verbatim>\<open>/rules/c.yaml\<close> meets an engine that refuses its
  file list: the engine keeps the group of the first reload, and the index, replaced as a
  whole, has no entry for that group's scratch path. The listing then gives the group the
  empty string as its file, not the scratch path, which is not empty.
\<close>

theorem RuleGroups_missing_file_counterexample:
  "Update stub_lib demo_world (NewManager ''/data'') 60000000000 [''/rules/a.yaml'']
     = Inr (None, manager_with [loaded_group ''/rules/a.yaml'' WARN] []
                    [newFn stub_lib ''/data/.tmp-rules'' ''/rules/a.yaml'' WARN \<mapsto> ''/rules/a.yaml''])
   \<and> Update stub_lib refusing_world
        (manager_with [loaded_group ''/rules/a.yaml'' WARN] []
           [newFn stub_lib ''/data/.tmp-rules'' ''/rules/a.yaml'' WARN \<mapsto> ''/rules/a.yaml''])
        60000000000 [''/rules/c.yaml'']
     = Inr (Some (MultiError [''strategy WARN: error loading rules, previous rule set restored'']),
            manager_with [loaded_group ''/rules/a.yaml'' WARN] []
              [newFn stub_lib ''/data/.tmp-rules'' ''/rules/c.yaml'' WARN \<mapsto> ''/rules/c.yaml''])
   \<and> map (\<lambda>g. (grp_File (Group_embedded g), map_sum id File (ToProto stub_lib g)))
        (RuleGroups WarnFirst
           (manager_with [loaded_group ''/rules/a.yaml'' WARN] []
              [newFn stub_lib ''/data/.tmp-rules'' ''/rules/c.yaml'' WARN \<mapsto> ''/rules/c.yaml'']))
     = [(newFn stub_lib ''/data/.tmp-rules'' ''/rules/a.yaml'' WARN, Inr [])]
   \<and> newFn stub_lib ''/data/.tmp-rules'' ''/rules/a.yaml'' WARN \<noteq> []"
proof (intro conjI)
  show "Update stub_lib demo_world (NewManager ''/data'') 60000000000 [''/rules/a.yaml'']
     = Inr (None, manager_with [loaded_group ''/rules/a.yaml'' WARN] []
                    [newFn stub_lib ''/data/.tmp-rules'' ''/rules/a.yaml'' WARN \<mapsto> ''/rules/a.yaml''])"
    by (simp add: NewManager_data reload_defs fun_eq_iff)
  show "Update stub_lib refusing_world
        (manager_with [loaded_group ''/rules/a.yaml'' WARN] []
           [newFn stub_lib ''/data/.tmp-rules'' ''/rules/a.yaml'' WARN \<mapsto> ''/rules/a.yaml''])
        60000000000 [''/rules/c.yaml'']
     = Inr (Some (MultiError [''strategy WARN: error loading rules, previous rule set restored'']),
            manager_with [loaded_group ''/rules/a.yaml'' WARN] []
              [newFn stub_lib ''/data/.tmp-rules'' ''/rules/c.yaml'' WARN \<mapsto> ''/rules/c.yaml''])"
    by (simp add: reload_defs fun_eq_iff)
  show "map (\<lambda>g. (grp_File (Group_embedded g), map_sum id File (ToProto stub_lib g)))
        (RuleGroups WarnFirst
           (manager_with [loaded_group ''/rules/a.yaml'' WARN] []
              [newFn stub_lib ''/data/.tmp-rules'' ''/rules/c.yaml'' WARN \<mapsto> ''/rules/c.yaml'']))
     = [(newFn stub_lib ''/data/.tmp-rules'' ''/rules/a.yaml'' WARN, Inr [])]"
    by (simp add: RuleGroups_def range_keys_def lookup_file_def ToProto_def manager_with_def
          loaded_group_def newFn_eq_iff Base_samples)
  show "newFn stub_lib ''/data/.tmp-rules'' ''/rules/a.yaml'' WARN \<noteq> []"
    by (simp add: newFn_shape)
qed

text \<open>
  Claim C6, as amended: when removing the scratch directory fails, or removing it
  succeeds and creating it fails, \<^verbatim>\<open>Update\<close> returns at once with that one error,
  wrapped with the directory path; no file is read, no engine is pushed to, and the
  manager, its file index included, is as before. (The claim promised that the error is
  collected and the reload continues.)
\<close>

theorem Update_scratch_dir_failure:
  "(RemoveAll w (workDir m) = Some err \<longrightarrow>
      Update L w m d files
        = Inr (Some (Failure (Wrap err (''failed to remove '' @ workDir m))), m))
   \<and> (RemoveAll w (workDir m) = None \<and> MkdirAll w (workDir m) = Some err \<longrightarrow>
      Update L w m d files
        = Inr (Some (Failure (Wrap err (''failed to create '' @ workDir m))), m))"
  by (simp add: Update_def)

theorem Update_scratch_dir_failure_witness:
  "RemoveAll unwritable_world (workDir demo_manager) = Some ''permission denied''
   \<and> Update stub_lib unwritable_world demo_manager 60000000000 [''/rules/b.yaml'']
       = Inr (Some (Failure ''failed to remove /data/.tmp-rules: permission denied''), demo_manager)
   \<and> RemoveAll (demo_world\<lparr>MkdirAll := (\<lambda>p. Some ''read-only file system'')\<rparr>) (workDir demo_manager)
       = None
   \<and> MkdirAll (demo_world\<lparr>MkdirAll := (\<lambda>p. Some ''read-only file system'')\<rparr>) (workDir demo_manager)
       = Some ''read-only file system''
   \<and> Update stub_lib (demo_world\<lparr>MkdirAll := (\<lambda>p. Some ''read-only file system'')\<rparr>) demo_manager
        60000000000 [''/rules/b.yaml'']
       = Inr (Some (Failure ''failed to create /data/.tmp-rules: read-only file system''), demo_manager)"
proof -
  have 1: "RemoveAll unwritable_world (workDir demo_manager) = Some ''permission denied''"
    by (simp add: unwritable_world_def)
  have 2: "RemoveAll (demo_world\<lparr>MkdirAll := (\<lambda>p. Some ''read-only file system'')\<rparr>) (workDir demo_manager)
       = None
     \<and> MkdirAll (demo_world\<lparr>MkdirAll := (\<lambda>p. Some ''read-only file system'')\<rparr>) (workDir demo_manager)
       = Some ''read-only file system''"
    by (simp add: demo_world_def)
  have w: "workDir demo_manager = ''/data/.tmp-rules''"
    by (simp add: demo_manager_def)
  show ?thesis
    using 1 2
      Update_scratch_dir_failure [of unwritable_world demo_manager "''permission denied''"
        stub_lib 60000000000 "[''/rules/b.yaml'']"]
      Update_scratch_dir_failure [of "demo_world\<lparr>MkdirAll := (\<lambda>p. Some ''read-only file system'')\<rparr>"
        demo_manager "''read-only file system''" stub_lib 60000000000 "[''/rules/b.yaml'']"]
    by (simp add: w Wrap_def)
qed

text \<open>
  The claim C6 as stated fails. In a world where the scratch directory cannot be removed,
  the reload of a missing file and a good file returns the single directory error: the
  read error of the missing file is not reported, the good file is not loaded, the index
  is not replaced. In the world where the directory can be removed, the same reload
  collects the read error and loads the good file.
\<close>

theorem Update_scratch_dir_counterexample:
  "Update stub_lib unwritable_world (NewManager ''/data'') 60000000000
       [''/rules/missing.yaml'', ''/rules/b.yaml'']
     = Inr (Some (Failure ''failed to remove /data/.tmp-rules: permission denied''),
            NewManager ''/data'')
   \<and> Update stub_lib demo_world (NewManager ''/data'') 60000000000
       [''/rules/missing.yaml'', ''/rules/b.yaml'']
     = Inr (Some (MultiError [''open /rules/missing.yaml: no such file or directory'']),
            manager_with [] [loaded_group ''/rules/b.yaml'' ABORT]
              [newFn stub_lib ''/data/.tmp-rules'' ''/rules/b.yaml'' ABORT \<mapsto> ''/rules/b.yaml''])"
  by (simp add: NewManager_data reload_defs fun_eq_iff)



text \<open>
  Claim C8, as amended: group by group, the number of rules in the unfiltered output is
  the number in the \<open>ALERTING\<close> output plus the number in the \<open>RECORDING\<close> output.
  This holds for one projected group and the two filter loops run on it; and it holds
  position by position for the three responses over one manager when the three calls
  visit the engines in the same order \<open>ord\<close>. When the unfiltered call answers, so do
  the other two, with as many groups. (The claim matched the groups by position across
  any three responses over the same engines.)
\<close>

theorem Rules_count_law:
  "(ToProto L g = Inr pg \<longrightarrow>
      length (Rules pg) = length (filter_rules RulesRequest_ALERTING (Rules pg) [])
                        + length (filter_rules RulesRequest_RECORDING (Rules pg) []))
   \<and> (Rules_pgs L ord m RulesRequest_ALL = Inr all \<longrightarrow>
      (\<exists>al rc. Rules_pgs L ord m RulesRequest_ALERTING = Inr al
        \<and> Rules_pgs L ord m RulesRequest_RECORDING = Inr rc
        \<and> length al = length all \<and> length rc = length all
        \<and> (\<forall>i<length all.
              length (Rules (all ! i)) = length (Rules (al ! i)) + length (Rules (rc ! i)))))"
proof (intro conjI impI)
  show "length (Rules pg) = length (filter_rules RulesRequest_ALERTING (Rules pg) [])
                        + length (filter_rules RulesRequest_RECORDING (Rules pg) [])"
    using kinds_partition [of "Rules pg"] by (simp add: filter_rules_eq)
next
  assume "Rules_pgs L ord m RulesRequest_ALL = Inr all"
  then show "\<exists>al rc. Rules_pgs L ord m RulesRequest_ALERTING = Inr al
        \<and> Rules_pgs L ord m RulesRequest_RECORDING = Inr rc
        \<and> length al = length all \<and> length rc = length all
        \<and> (\<forall>i<length all.
              length (Rules (all ! i)) = length (Rules (al ! i)) + length (Rules (rc ! i)))"
    unfolding Rules_pgs_def
    using kinds_partition
    by (simp add: Rules_groups_eq [of L RulesRequest_ALERTING]
          Rules_groups_eq [of L RulesRequest_RECORDING] emit_def RuleGroup_zero_def)
qed

theorem Rules_count_law_witness:
  "(\<exists>pg. ToProto stub_lib (hd (RuleGroups WarnFirst demo_manager)) = Inr pg
      \<and> length (Rules pg) = 3
      \<and> length (Rules pg) = length (filter_rules RulesRequest_ALERTING (Rules pg) [])
                            + length (filter_rules RulesRequest_RECORDING (Rules pg) []))
   \<and> (\<exists>all al rc. Rules_pgs stub_lib AbortFirst demo_manager RulesRequest_ALL = Inr all
      \<and> Rules_pgs stub_lib AbortFirst demo_manager RulesRequest_ALERTING = Inr al
      \<and> Rules_pgs stub_lib AbortFirst demo_manager RulesRequest_RECORDING = Inr rc
      \<and> length all = 2 \<and> length al = 2 \<and> length rc = 2
      \<and> length (Rules (all ! 1)) = 3
      \<and> length (Rules (all ! 1)) = length (Rules (al ! 1)) + length (Rules (rc ! 1)))"
proof -
  obtain pg where g: "ToProto stub_lib (hd (RuleGroups WarnFirst demo_manager)) = Inr pg"
      and k: "length (Rules pg) = 3"
    by (simp add: listing_defs)
  obtain all where h: "Rules_pgs stub_lib AbortFirst demo_manager RulesRequest_ALL = Inr all"
      and n: "length all = 2" "length (Rules (all ! 1)) = 3"
    by (simp add: listing_defs)
  note law = Rules_count_law [of stub_lib "hd (RuleGroups WarnFirst demo_manager)" pg
      AbortFirst demo_manager all]
  from law g have 1: "length (Rules pg) = length (filter_rules RulesRequest_ALERTING (Rules pg) [])
                            + length (filter_rules RulesRequest_RECORDING (Rules pg) [])"
    by blast
  from law h
  obtain al rc where "Rules_pgs stub_lib AbortFirst demo_manager RulesRequest_ALERTING = Inr al"
      "Rules_pgs stub_lib AbortFirst demo_manager RulesRequest_RECORDING = Inr rc"
      "length al = length all" "length rc = length all"
      "\<forall>i<length all. length (Rules (all ! i)) = length (Rules (al ! i)) + length (Rules (rc ! i))"
    by blast
  with h n have 2: "\<exists>all al rc. Rules_pgs stub_lib AbortFirst demo_manager RulesRequest_ALL = Inr all
      \<and> Rules_pgs stub_lib AbortFirst demo_manager RulesRequest_ALERTING = Inr al
      \<and> Rules_pgs stub_lib AbortFirst demo_manager RulesRequest_RECORDING = Inr rc
      \<and> length all = 2 \<and> length al = 2 \<and> length rc = 2
      \<and> length (Rules (all ! 1)) = 3
      \<and> length (Rules (all ! 1)) = length (Rules (al ! 1)) + length (Rules (rc ! 1))"
    by auto
  from g k 1 2 show ?thesis by blast
qed

text \<open>
  The claim C8 as stated fails. Each call ranges over the map of the engines anew, in an
  order that Go leaves open. Over the sample manager, a call for \<open>ALL\<close> that visits
  \<open>WARN\<close> first lists groups of 3 and 1 rules; calls for \<open>ALERTING\<close> and for
  \<open>RECORDING\<close> that visit \<open>ABORT\<close> first list groups of 0 and 2 rules, and of 1 and 1
  rules. At the first position 3 is not 0 + 1.
\<close>

theorem Rules_count_law_counterexample:
  "map_sum id (map (\<lambda>pg. length (Rules pg)))
       (Rules_pgs stub_lib WarnFirst demo_manager RulesRequest_ALL) = Inr [3, 1]
   \<and> map_sum id (map (\<lambda>pg. length (Rules pg)))
       (Rules_pgs stub_lib AbortFirst demo_manager RulesRequest_ALERTING) = Inr [0, 2]
   \<and> map_sum id (map (\<lambda>pg. length (Rules pg)))
       (Rules_pgs stub_lib AbortFirst demo_manager RulesRequest_RECORDING) = Inr [1, 1]"
  by (simp add: listing_defs)

text \<open>
  Claim C9 (the formatted value of an active alert parses back to the value it was
  formatted from) is a statement about binary floating point and about
  \<^verbatim>\<open>strconv.FormatFloat\<close>, which is a parameter here: \<^verbatim>\<open>ActiveAlertsToProto\<close>
  hands each alert's value to it and stores its answer. It has no theorem.
\<close>

text \<open>
  Claim C10: projection and filtering keep the order. For the groups gathered by one call,
  the unfiltered output of a group lists the projections of the group's live rules in
  the order of the live rule list (and every live rule is an alerting or a recording
  rule, since the call answered); the \<open>ALERTING\<close> output of the group is the sublist of
  the alert records of that list, the \<open>RECORDING\<close> output the sublist of its recording
  records, both in the same relative order.
\<close>

theorem Rules_order_preserving:
  "Rules_groups L RulesRequest_ALL gs [] = Inr all \<Longrightarrow>
     map (\<lambda>pg. map Inr (Rules pg)) all
       = map (\<lambda>g. map (rule_ToProto L (Group_Strategy g)) (grp_Rules (Group_embedded g))) gs
     \<and> (\<exists>al. Rules_groups L RulesRequest_ALERTING gs [] = Inr al
            \<and> map Rules al = map (\<lambda>pg. filter (\<lambda>rule. GetAlert rule \<noteq> None) (Rules pg)) all)
     \<and> (\<exists>rc. Rules_groups L RulesRequest_RECORDING gs [] = Inr rc
            \<and> map Rules rc = map (\<lambda>pg. filter (\<lambda>rule. GetRecording rule \<noteq> None) (Rules pg)) all)"
proof (intro conjI)
  assume all: "Rules_groups L RulesRequest_ALL gs [] = Inr all"
  have "map Inr all = map (ToProto L) gs"
    using all by (rule Rules_groups_ALL)
  then have "list_all2 (\<lambda>pg g. ToProto L g = Inr pg) all gs"
    by (simp add: list_all2_conv_all_nth map_equality_iff)
  then have "list_all2 (\<lambda>pg g. map Inr (Rules pg)
       = map (rule_ToProto L (Group_Strategy g)) (grp_Rules (Group_embedded g))) all gs"
    by (rule list_all2_mono) (rule ToProto_Rules)
  then show "map (\<lambda>pg. map Inr (Rules pg)) all
       = map (\<lambda>g. map (rule_ToProto L (Group_Strategy g)) (grp_Rules (Group_embedded g))) gs"
    by (induction rule: list_all2_induct) simp_all
  show "\<exists>al. Rules_groups L RulesRequest_ALERTING gs [] = Inr al
            \<and> map Rules al = map (\<lambda>pg. filter (\<lambda>rule. GetAlert rule \<noteq> None) (Rules pg)) all"
    using all
    by (simp add: Rules_groups_eq [of L RulesRequest_ALERTING] emit_def of_kind_ALERTING
          RuleGroup_zero_def comp_def)
  show "\<exists>rc. Rules_groups L RulesRequest_RECORDING gs [] = Inr rc
            \<and> map Rules rc = map (\<lambda>pg. filter (\<lambda>rule. GetRecording rule \<noteq> None) (Rules pg)) all"
    using all
    by (simp add: Rules_groups_eq [of L RulesRequest_RECORDING] emit_def of_kind_RECORDING
          RuleGroup_zero_def comp_def)
qed

theorem Rules_order_preserving_witness:
  "\<exists>all al rc. Rules_groups stub_lib RulesRequest_ALL (RuleGroups WarnFirst demo_manager) [] = Inr all
      \<and> map (\<lambda>pg. map Inr (Rules pg)) all
          = map (\<lambda>g. map (rule_ToProto stub_lib (Group_Strategy g)) (grp_Rules (Group_embedded g)))
              (RuleGroups WarnFirst demo_manager)
      \<and> Rules_groups stub_lib RulesRequest_ALERTING (RuleGroups WarnFirst demo_manager) [] = Inr al
      \<and> map Rules al = map (\<lambda>pg. filter (\<lambda>rule. GetAlert rule \<noteq> None) (Rules pg)) all
      \<and> Rules_groups stub_lib RulesRequest_RECORDING (RuleGroups WarnFirst demo_manager) [] = Inr rc
      \<and> map Rules rc = map (\<lambda>pg. filter (\<lambda>rule. GetRecording rule \<noteq> None) (Rules pg)) all"
proof -
  obtain all where h: "Rules_groups stub_lib RulesRequest_ALL (RuleGroups WarnFirst demo_manager) [] = Inr all"
    by (simp add: listing_defs)
  from Rules_order_preserving [OF h] h show ?thesis by blast
qed

end
